theory Spec2Isabelle
  imports Main "HOL-Library.Word"
begin

unbundle bit_operations_syntax

section \<open>Status codes and outcomes (gt_base.h)\<close>

type_synonym byte = "8 word"

text \<open>
  \<^verbatim>\<open>enum GTStatusCode\<close>, in the order of the header. \<open>status_value\<close> is the
  integer of each enumerator: the header starts the syntax errors at 0x100, the semantic
  errors at 0x200 and the system errors at 0x300.
\<close>

datatype GTStatusCode =
    GT_OK | GT_EARLIER | GT_NOT_EARLIER | GT_EXTENDED | GT_NOT_EXTENDED
  | GT_INVALID_ARGUMENT | GT_INVALID_FORMAT | GT_UNTRUSTED_HASH_ALGORITHM
  | GT_UNTRUSTED_SIGNATURE_ALGORITHM | GT_INVALID_LINKING_INFO | GT_UNSUPPORTED_FORMAT
  | GT_DIFFERENT_HASH_ALGORITHMS | GT_PKI_BAD_ALG | GT_PKI_BAD_REQUEST
  | GT_PKI_BAD_DATA_FORMAT | GT_PROTOCOL_MISMATCH | GT_NONSTD_EXTEND_LATER
  | GT_NONSTD_EXTENSION_OVERDUE | GT_UNACCEPTED_POLICY
  | GT_WRONG_DOCUMENT | GT_WRONG_SIZE_OF_HISTORY | GT_REQUEST_TIME_MISMATCH
  | GT_INVALID_LENGTH_BYTES | GT_INVALID_AGGREGATION | GT_INVALID_SIGNATURE
  | GT_WRONG_SIGNED_DATA | GT_TRUST_POINT_NOT_FOUND | GT_INVALID_TRUST_POINT
  | GT_CANNOT_EXTEND | GT_ALREADY_EXTENDED | GT_KEY_NOT_PUBLISHED
  | GT_CERT_TICKET_TOO_OLD | GT_CERT_NOT_TRUSTED
  | GT_OUT_OF_MEMORY | GT_IO_ERROR | GT_TIME_OVERFLOW | GT_CRYPTO_FAILURE
  | GT_PKI_SYSTEM_FAILURE | GT_UNKNOWN_ERROR

fun status_value :: "GTStatusCode \<Rightarrow> int" where
  "status_value GT_OK = 0x000"
| "status_value GT_EARLIER = 0x001"
| "status_value GT_NOT_EARLIER = 0x002"
| "status_value GT_EXTENDED = 0x003"
| "status_value GT_NOT_EXTENDED = 0x004"
| "status_value GT_INVALID_ARGUMENT = 0x100"
| "status_value GT_INVALID_FORMAT = 0x101"
| "status_value GT_UNTRUSTED_HASH_ALGORITHM = 0x102"
| "status_value GT_UNTRUSTED_SIGNATURE_ALGORITHM = 0x103"
| "status_value GT_INVALID_LINKING_INFO = 0x104"
| "status_value GT_UNSUPPORTED_FORMAT = 0x105"
| "status_value GT_DIFFERENT_HASH_ALGORITHMS = 0x106"
| "status_value GT_PKI_BAD_ALG = 0x107"
| "status_value GT_PKI_BAD_REQUEST = 0x108"
| "status_value GT_PKI_BAD_DATA_FORMAT = 0x109"
| "status_value GT_PROTOCOL_MISMATCH = 0x10a"
| "status_value GT_NONSTD_EXTEND_LATER = 0x10b"
| "status_value GT_NONSTD_EXTENSION_OVERDUE = 0x10c"
| "status_value GT_UNACCEPTED_POLICY = 0x10d"
| "status_value GT_WRONG_DOCUMENT = 0x200"
| "status_value GT_WRONG_SIZE_OF_HISTORY = 0x201"
| "status_value GT_REQUEST_TIME_MISMATCH = 0x202"
| "status_value GT_INVALID_LENGTH_BYTES = 0x203"
| "status_value GT_INVALID_AGGREGATION = 0x204"
| "status_value GT_INVALID_SIGNATURE = 0x205"
| "status_value GT_WRONG_SIGNED_DATA = 0x206"
| "status_value GT_TRUST_POINT_NOT_FOUND = 0x207"
| "status_value GT_INVALID_TRUST_POINT = 0x208"
| "status_value GT_CANNOT_EXTEND = 0x209"
| "status_value GT_ALREADY_EXTENDED = 0x20a"
| "status_value GT_KEY_NOT_PUBLISHED = 0x20b"
| "status_value GT_CERT_TICKET_TOO_OLD = 0x20c"
| "status_value GT_CERT_NOT_TRUSTED = 0x20d"
| "status_value GT_OUT_OF_MEMORY = 0x300"
| "status_value GT_IO_ERROR = 0x301"
| "status_value GT_TIME_OVERFLOW = 0x302"
| "status_value GT_CRYPTO_FAILURE = 0x303"
| "status_value GT_PKI_SYSTEM_FAILURE = 0x304"
| "status_value GT_UNKNOWN_ERROR = 0x305"

text \<open>The header's range of system errors.\<close>

definition is_system_error :: "GTStatusCode \<Rightarrow> bool" where
  "is_system_error c \<longleftrightarrow> 0x300 \<le> status_value c"

text \<open>\<^verbatim>\<open>enum GTVerificationError\<close> and \<^verbatim>\<open>enum GTVerificationStatus\<close>: bit flags in an int.\<close>

definition GT_NO_FAILURES :: int where "GT_NO_FAILURES = 0"
definition GT_SYNTACTIC_CHECK_FAILURE :: int where "GT_SYNTACTIC_CHECK_FAILURE = 1"
definition GT_HASHCHAIN_VERIFICATION_FAILURE :: int where "GT_HASHCHAIN_VERIFICATION_FAILURE = 2"
definition GT_PUBLIC_KEY_SIGNATURE_FAILURE :: int where "GT_PUBLIC_KEY_SIGNATURE_FAILURE = 16"
definition GT_PUBLIC_KEY_SIGNATURE_PRESENT :: int where "GT_PUBLIC_KEY_SIGNATURE_PRESENT = 1"
definition GT_PUBLICATION_REFERENCE_PRESENT :: int where "GT_PUBLICATION_REFERENCE_PRESENT = 2"

text \<open>
  What a function does instead of returning its value: it returns a status code, an
  \<^verbatim>\<open>assert\<close> fails, it stores past the end of an array or of an allocated buffer
  or through a null pointer (C gives neither a meaning), or a loop does not end.
\<close>

datatype failure = Status GTStatusCode | AssertionFailed | BufferOverrun | NullPointer | NoReturn

definition bindr :: "failure + 'a \<Rightarrow> ('a \<Rightarrow> failure + 'b) \<Rightarrow> failure + 'b" where
  "bindr m f = (case m of Inl e \<Rightarrow> Inl e | Inr x \<Rightarrow> f x)"

text \<open>
  \<^verbatim>\<open>enum GTHashAlgorithm\<close>, and the digest size of each algorithm.

  Modelled from the spec: \<^verbatim>\<open>GT_getHashSize\<close> is declared in a header that is not
  among the sources. The sizes are those of the table in the documentation of
  \<^verbatim>\<open>GTHashAlgorithm\<close> in gt_base.h and of the specification (20, 32, 20, 28, 48, 64
  for the ids 0 to 5); an id with no algorithm has size 0, the value the location
  decoder tests for.
\<close>

definition GT_HASHALG_SHA1 :: nat where "GT_HASHALG_SHA1 = 0"
definition GT_HASHALG_SHA256 :: nat where "GT_HASHALG_SHA256 = 1"
definition GT_HASHALG_RIPEMD160 :: nat where "GT_HASHALG_RIPEMD160 = 2"
definition GT_HASHALG_SHA224 :: nat where "GT_HASHALG_SHA224 = 3"
definition GT_HASHALG_SHA384 :: nat where "GT_HASHALG_SHA384 = 4"
definition GT_HASHALG_SHA512 :: nat where "GT_HASHALG_SHA512 = 5"

definition GT_getHashSize :: "nat \<Rightarrow> nat" where
  "GT_getHashSize alg =
    (if alg = GT_HASHALG_SHA1 then 20
     else if alg = GT_HASHALG_SHA256 then 32
     else if alg = GT_HASHALG_RIPEMD160 then 20
     else if alg = GT_HASHALG_SHA224 then 28
     else if alg = GT_HASHALG_SHA384 then 48
     else if alg = GT_HASHALG_SHA512 then 64
     else 0)"

section \<open>Base32 codec (base32.c)\<close>

text \<open>
  \<^verbatim>\<open>static const char base32EncodeTable[32]\<close> and
  \<^verbatim>\<open>static const unsigned char base32NumDecTable[10]\<close>. The decode table has
  element type unsigned char, so the initialiser \<open>-1\<close> is stored as the byte 255:
  on \<open>8 word\<close> the numeral \<open>-1\<close> is that byte.
\<close>

definition base32EncodeTable :: string where
  "base32EncodeTable = ''ABCDEFGHIJKLMNOPQRSTUVWXYZ234567''"

definition base32NumDecTable :: "byte list" where
  "base32NumDecTable = [- 1, - 1, 26, 27, 28, 29, 30, 31, - 1, - 1]"

text \<open>\<^verbatim>\<open>makeMask\<close>: the loop shifts left by one and sets the lowest bit, \<open>bit_count\<close> times.\<close>

fun makeMask :: "nat \<Rightarrow> int" where
  "makeMask 0 = 0"
| "makeMask (Suc i) = push_bit 1 (makeMask i) OR 1"

text \<open>
  \<^verbatim>\<open>addBits(buf, &bits_decoded, bits)\<close>: the state is the output buffer and the bit
  counter. \<open>bits\<close> is a C int; a negative value returns at once. The bytes are
  combined with \<open>|=\<close>, truncated to the eight bits of an unsigned char.
\<close>

definition addBits :: "byte list \<times> nat \<Rightarrow> int \<Rightarrow> byte list \<times> nat" where
  "addBits st bits =
    (case st of (buf, bits_decoded) \<Rightarrow>
      if bits < 0 then (buf, bits_decoded)
      else
        let bits_to_first_byte =
              (if 8 - bits_decoded mod 8 > 5 then 5 else 8 - bits_decoded mod 8);
            shift_count = 8 - bits_to_first_byte - bits_decoded mod 8;
            buf_idx = bits_decoded div 8;
            selected_bits =
              drop_bit (5 - bits_to_first_byte)
                (bits AND push_bit (5 - bits_to_first_byte) (makeMask bits_to_first_byte));
            buf1 = buf[buf_idx := (buf ! buf_idx) OR word_of_int (push_bit shift_count selected_bits)];
            bits_decoded1 = bits_decoded + bits_to_first_byte
        in if bits_to_first_byte < 5 then
             let bits_to_second_byte = 5 - bits_to_first_byte;
                 shift_count2 = 8 - bits_to_second_byte;
                 buf_idx2 = buf_idx + 1;
                 selected_bits2 =
                   bits AND drop_bit (5 - bits_to_second_byte)
                     (push_bit (5 - bits_to_second_byte) (makeMask bits_to_second_byte));
                 buf2 = buf1[buf_idx2 := (buf1 ! buf_idx2) OR word_of_int (push_bit shift_count2 selected_bits2)]
             in (buf2, bits_decoded1 + bits_to_second_byte)
           else (buf1, bits_decoded1))"

text \<open>The C library predicates the decoder uses, on the "C" locale.\<close>

definition isdigit :: "char \<Rightarrow> bool" where
  "isdigit c \<longleftrightarrow> of_char (CHR ''0'') \<le> (of_char c :: nat) \<and> (of_char c :: nat) \<le> of_char (CHR ''9'')"

definition is_upper_letter :: "char \<Rightarrow> bool" where
  "is_upper_letter c \<longleftrightarrow> of_char (CHR ''A'') \<le> (of_char c :: nat) \<and> (of_char c :: nat) \<le> of_char (CHR ''Z'')"

definition is_lower_letter :: "char \<Rightarrow> bool" where
  "is_lower_letter c \<longleftrightarrow> of_char (CHR ''a'') \<le> (of_char c :: nat) \<and> (of_char c :: nat) \<le> of_char (CHR ''z'')"

definition toupper :: "char \<Rightarrow> nat" where
  "toupper c = (if is_lower_letter c then of_char c - 32 else of_char c)"

text \<open>
  The loop of \<^verbatim>\<open>GT_base32Decode\<close> over the characters not yet read: \<open>=\<close> breaks,
  a digit adds \<^verbatim>\<open>base32NumDecTable[c - '0']\<close> (an unsigned char promoted to int),
  a letter adds \<^verbatim>\<open>toupper(c) - 'A'\<close>, any other character falls through to the
  next iteration.
\<close>

fun decode_loop :: "string \<Rightarrow> byte list \<times> nat \<Rightarrow> byte list \<times> nat" where
  "decode_loop [] st = st"
| "decode_loop (c # cs) st =
    (if c = CHR ''='' then st
     else if isdigit c then
       decode_loop cs (addBits st (uint (base32NumDecTable ! (of_char c - of_char (CHR ''0'')))))
     else if is_upper_letter c \<or> is_lower_letter c then
       decode_loop cs (addBits st (int (toupper c) - int (of_char (CHR ''A''))))
     else decode_loop cs st)"

text \<open>
  \<^verbatim>\<open>GT_base32Decode\<close> with the length given (\<open>base32_len\<close> the length of the
  string): the buffer of \<open>base32_len * 5 / 8 + 2\<close> bytes is zeroed, the loop runs,
  and the result is the first \<open>bits_decoded / 8\<close> bytes of the buffer.
\<close>

definition GT_base32Decode :: "string \<Rightarrow> byte list" where
  "GT_base32Decode base32 =
    (let ret = replicate (length base32 * 5 div 8 + 2) (0 :: byte);
         st = decode_loop base32 (ret, 0)
     in take (snd st div 8) (fst st))"

text \<open>
  \<^verbatim>\<open>readNextBits\<close>: the next five bits of the data from bit position \<open>bits_read\<close>,
  or \<open>-1\<close> past the end.
\<close>

definition readNextBits :: "byte list \<Rightarrow> nat \<Rightarrow> int" where
  "readNextBits data bits_read =
    (let byte_to_read = bits_read div 8 in
     if byte_to_read \<ge> length data then - 1
     else
       let first_byte_bits =
             (if 8 - (bits_read - byte_to_read * 8) > 5 then 5
              else 8 - (bits_read - byte_to_read * 8));
           shift_count = 8 - bits_read mod 8 - first_byte_bits;
           ret = drop_bit shift_count
                   (uint (data ! byte_to_read) AND push_bit shift_count (makeMask first_byte_bits));
           byte_to_read1 = byte_to_read + 1
       in if first_byte_bits < 5 then
            let second_byte_bits = 5 - first_byte_bits;
                ret1 = push_bit second_byte_bits ret
            in if byte_to_read1 < length data then
                 let shift_count1 = 8 - second_byte_bits
                 in ret1 OR drop_bit shift_count1
                      (uint (data ! byte_to_read1) AND push_bit shift_count1 (makeMask second_byte_bits))
               else ret1
          else ret)"

text \<open>
  The two loops of \<^verbatim>\<open>GT_base32Encode\<close>. The state is the position \<open>bits_read\<close> and
  the characters written so far (\<open>ret_len\<close> is their number). Neither loop is bounded
  by its arguments alone, so not returning is the value \<open>None\<close>.
\<close>

partial_function (option) encode_loop ::
  "byte list \<Rightarrow> nat \<Rightarrow> nat \<Rightarrow> string \<Rightarrow> (nat \<times> string) option" where
  "encode_loop data group_len bits_read ret =
    (let next_bits = readNextBits data bits_read in
     if next_bits = - 1 then Some (bits_read, ret)
     else
       let ret1 = ret @ [base32EncodeTable ! nat next_bits];
           ret2 = (if length ret1 mod (group_len + 1) = group_len \<and> bits_read + 5 < length data * 8
                   then ret1 @ [CHR ''-''] else ret1)
       in encode_loop data group_len (bits_read + 5) ret2)"

partial_function (option) pad_loop :: "nat \<Rightarrow> nat \<Rightarrow> string \<Rightarrow> string option" where
  "pad_loop group_len bits_read ret =
    (if bits_read mod 40 \<noteq> 0 then
       let ret1 = ret @ [CHR ''=''];
           ret2 = (if length ret1 mod (group_len + 1) = group_len \<and> bits_read mod 40 \<noteq> 35
                   then ret1 @ [CHR ''-''] else ret1)
       in pad_loop group_len (bits_read + 5) ret2
     else Some ret)"

declare encode_loop.simps [code]
declare pad_loop.simps [code]

text \<open>
  \<^verbatim>\<open>buf_len\<close>, the size of the buffer \<^verbatim>\<open>GT_base32Encode\<close> allocates: room for the
  padded encoding, for the separators when \<open>group_len > 0\<close>, and for the final NUL.
\<close>

definition encode_buf_len :: "nat \<Rightarrow> nat \<Rightarrow> nat" where
  "encode_buf_len data_len group_len =
    (let buf_len = (data_len * 8 + 39) div 40 * 8;
         buf_len1 = (if group_len > 0 then buf_len + (buf_len - 1) div group_len else buf_len)
     in buf_len1 + 1)"

text \<open>The characters \<^verbatim>\<open>GT_base32Encode\<close> stores before the final NUL, in order.\<close>

definition encode_writes :: "byte list \<Rightarrow> nat \<Rightarrow> string option" where
  "encode_writes data group_len =
    (case encode_loop data group_len 0 [] of
       None \<Rightarrow> None
     | Some (bits_read, ret) \<Rightarrow> pad_loop group_len bits_read ret)"

text \<open>
  \<^verbatim>\<open>GT_base32Encode\<close>. The assertion \<open>data_len != 0\<close> and a store past the end of
  the allocated buffer are outcomes of their own: C gives the second no meaning.
\<close>

definition GT_base32Encode :: "byte list \<Rightarrow> nat \<Rightarrow> failure + string" where
  "GT_base32Encode data group_len =
    (if data = [] then Inl AssertionFailed
     else case encode_writes data group_len of
            None \<Rightarrow> Inl NoReturn
          | Some ret \<Rightarrow>
              if length ret + 1 > encode_buf_len (length data) group_len then Inl BufferOverrun
              else Inr ret)"

text \<open>
  Auxiliary notions for the proofs about the decoder: the characters the loop does not
  fall through on, one \<open>|=\<close> store, and two states that agree on the first
  \<open>k\<close> bytes of their buffers.
\<close>

definition base32_symbol :: "char \<Rightarrow> bool" where
  "base32_symbol c \<longleftrightarrow> isdigit c \<or> is_upper_letter c \<or> is_lower_letter c"

definition or_at :: "byte list \<Rightarrow> nat \<Rightarrow> byte \<Rightarrow> byte list" where
  "or_at b i x = b[i := (b ! i) OR x]"

definition buf_agree :: "nat \<Rightarrow> byte list \<times> nat \<Rightarrow> byte list \<times> nat \<Rightarrow> bool" where
  "buf_agree k st st' \<longleftrightarrow>
     snd st = snd st' \<and> k \<le> length (fst st) \<and> k \<le> length (fst st') \<and> take k (fst st) = take k (fst st')"


section \<open>Location decoder (gt_timestamp.c)\<close>

text \<open>
  \<^verbatim>\<open>struct LocationInfo\<close> of \<^verbatim>\<open>extractLocation\<close>. The fields of type unsigned are
  32-bit words. A name is a pointer into the hash chain: its offset from the start of
  the chain, \<open>None\<close> for the null pointer the initialiser \<^verbatim>\<open>{0}\<close> gives.
\<close>

record LocationInfo =
  hasher :: "32 word"
  national_cluster :: "32 word"
  national_machine :: "32 word"
  national_slot :: "32 word"
  national_name :: "nat option"
  national_name_len :: "32 word"
  state_cluster :: "32 word"
  state_machine :: "32 word"
  state_slot :: "32 word"
  state_name :: "nat option"
  state_name_len :: "32 word"
  local_cluster :: "32 word"
  local_machine :: "32 word"
  local_slot :: "32 word"
  local_name :: "nat option"
  local_name_len :: "32 word"
  client_id :: "32 word"
  client_name :: "nat option"
  client_name_len :: "32 word"

text \<open>
  The constants of \<^verbatim>\<open>extractLocation\<close>. The C constant \<^verbatim>\<open>hasher\<close> is named
  \<open>hasher_level\<close> here, \<open>hasher\<close> being the field of the record.
\<close>

definition hasher_level :: int where "hasher_level = 80"
definition gdepth_top :: int where "gdepth_top = 60"
definition gdepth_national :: int where "gdepth_national = 39"
definition gdepth_state :: int where "gdepth_state = 19"
definition slot_bits_top :: nat where "slot_bits_top = 3"
definition ab_bits_top :: nat where "ab_bits_top = 3"
definition slot_bits_national :: nat where "slot_bits_national = 2"
definition ab_bits_national :: nat where "ab_bits_national = 3"
definition slot_bits_state :: nat where "slot_bits_state = 2"
definition ab_bits_state :: nat where "ab_bits_state = 2"

definition top_level :: int where
  "top_level = gdepth_top + (int slot_bits_top + int ab_bits_top) - 2"

definition national_level :: int where
  "national_level = gdepth_national + (int slot_bits_national + int ab_bits_national) - 2"

definition state_level :: int where
  "state_level = gdepth_state + (int slot_bits_state + int ab_bits_state) - 2"

text \<open>
  \<^verbatim>\<open>collectBits(buf, &len, num)\<close>: the loop runs while \<open>num-- > 0 && *len > 0\<close>,
  shifting the result left and taking \<open>buf[--*len]\<close>. The result is the value and the
  new \<open>*len\<close>. The two assertions on \<open>num\<close> stop the program where assertions are
  compiled in (\<open>asserts\<close>), and are no code under \<^verbatim>\<open>NDEBUG\<close>.
\<close>

fun collectBits_loop :: "byte list \<Rightarrow> nat \<Rightarrow> nat \<Rightarrow> 32 word \<Rightarrow> 32 word \<times> nat" where
  "collectBits_loop buf len 0 res = (res, len)"
| "collectBits_loop buf len (Suc num) res =
    (if len > 0 then collectBits_loop buf (len - 1) num (push_bit 1 res OR ucast (buf ! (len - 1)))
     else (res, len))"

definition collectBits :: "bool \<Rightarrow> byte list \<Rightarrow> nat \<Rightarrow> nat \<Rightarrow> failure + (32 word \<times> nat)" where
  "collectBits asserts buf len num =
    (if asserts \<and> \<not> (len \<ge> num \<and> num \<le> 32) then Inl AssertionFailed
     else Inr (collectBits_loop buf len num 0))"

text \<open>
  \<^verbatim>\<open>checkName(steps, &len, &name, &name_len)\<close> on the chain \<open>data\<close>: \<open>steps\<close> holds
  the offset of the first byte of each step, and \<open>step[i]\<close> is the byte \<open>i\<close> places
  after it. The result is the new \<open>*len\<close>, \<open>*name\<close> and \<open>*name_len\<close>; every early
  return leaves the three as they were.
\<close>

definition checkName ::
  "byte list \<Rightarrow> nat list \<Rightarrow> nat \<Rightarrow> nat option \<Rightarrow> 32 word \<Rightarrow> nat \<times> nat option \<times> 32 word" where
  "checkName data steps len name name_len =
    (let hash_len = GT_getHashSize GT_HASHALG_SHA224 in
     if len \<le> 0 then (len, name, name_len)
     else
       let step = steps ! (len - 1) in
       if data ! (step + 1) \<noteq> 1 then (len, name, name_len)
       else if unat (data ! (step + 2)) \<noteq> GT_HASHALG_SHA224 then (len, name, name_len)
       else if data ! (step + 3 + 0) \<noteq> 0 then (len, name, name_len)
       else if unat (data ! (step + 3 + 1)) + 2 > hash_len then (len, name, name_len)
       else if list_ex (\<lambda>i. data ! (step + 3 + i) \<noteq> 0) [2 + unat (data ! (step + 3 + 1)) ..< hash_len]
         then (len, name, name_len)
       else (len - 1, Some (step + 3 + 2), ucast (data ! (step + 3 + 1))))"

text \<open>
  One step of the chain as the loop of \<^verbatim>\<open>extractLocation\<close> reads it, from the offset
  \<open>p\<close> of the step: \<open>p\<close> is advanced by one to the direction byte, by one to the
  algorithm byte, by \<open>1 + hash_size\<close> to the level byte and by one to the next step,
  and each of the three reads is refused at or past the end of the chain. The result is
  \<open>hash_bit\<close>, \<open>hash_level\<close> and the offset of the next step.
\<close>

definition parse_step :: "byte list \<Rightarrow> nat \<Rightarrow> failure + (byte \<times> int \<times> nat)" where
  "parse_step data p =
    (let p1 = p + 1 in
     if p1 \<ge> length data then Inl (Status GT_INVALID_LINKING_INFO)
     else if data ! p1 \<noteq> 0 \<and> data ! p1 \<noteq> 1 then Inl (Status GT_INVALID_LINKING_INFO)
     else
       let hash_bit = 1 - data ! p1;
           p2 = p1 + 1
       in if p2 \<ge> length data then Inl (Status GT_INVALID_LINKING_INFO)
          else
            let hash_size = GT_getHashSize (unat (data ! p2)) in
            if hash_size = 0 then Inl (Status GT_INVALID_LINKING_INFO)
            else
              let p3 = p2 + (1 + hash_size) in
              if p3 \<ge> length data then Inl (Status GT_INVALID_LINKING_INFO)
              else Inr (hash_bit, uint (data ! p3), p3 + 1))"

text \<open>
  The local variables of the loop: the arrays \<^verbatim>\<open>steps[256]\<close> and \<^verbatim>\<open>bits[256]\<close>, their
  common fill \<open>num_bits\<close>, \<open>last_level\<close> and \<open>loc\<close>.
\<close>

record decoder =
  steps :: "nat list"
  bits :: "byte list"
  num_bits :: nat
  last_level :: int
  loc :: LocationInfo

text \<open>
  The four blocks of the loop body that run when the level crosses a threshold, named
  after the regions they separate. Each of the first three collects the machine and the
  slot, looks for a name and collects what is left into the id of the lower region.
\<close>

definition national_to_top :: "bool \<Rightarrow> byte list \<Rightarrow> decoder \<Rightarrow> failure + decoder" where
  "national_to_top asserts data st =
    bindr (collectBits asserts (bits st) (num_bits st) ab_bits_top) (\<lambda>(machine, n1).
    bindr (collectBits asserts (bits st) n1 slot_bits_top) (\<lambda>(slot, n2).
      case checkName data (steps st) n2 (national_name (loc st)) (national_name_len (loc st)) of
        (n3, name, name_len) \<Rightarrow>
    bindr (collectBits asserts (bits st) n3 n3) (\<lambda>(cluster, n4).
      Inr (st\<lparr>num_bits := n4,
              loc := (loc st)\<lparr>national_machine := machine, national_slot := slot,
                national_name := name, national_name_len := name_len,
                state_cluster := cluster\<rparr>\<rparr>))))"

definition state_to_national :: "bool \<Rightarrow> byte list \<Rightarrow> decoder \<Rightarrow> failure + decoder" where
  "state_to_national asserts data st =
    bindr (collectBits asserts (bits st) (num_bits st) ab_bits_national) (\<lambda>(machine, n1).
    bindr (collectBits asserts (bits st) n1 slot_bits_national) (\<lambda>(slot, n2).
      case checkName data (steps st) n2 (state_name (loc st)) (state_name_len (loc st)) of
        (n3, name, name_len) \<Rightarrow>
    bindr (collectBits asserts (bits st) n3 n3) (\<lambda>(cluster, n4).
      Inr (st\<lparr>num_bits := n4,
              loc := (loc st)\<lparr>state_machine := machine, state_slot := slot,
                state_name := name, state_name_len := name_len,
                local_cluster := cluster\<rparr>\<rparr>))))"

definition local_to_state :: "bool \<Rightarrow> byte list \<Rightarrow> decoder \<Rightarrow> failure + decoder" where
  "local_to_state asserts data st =
    bindr (collectBits asserts (bits st) (num_bits st) ab_bits_state) (\<lambda>(machine, n1).
    bindr (collectBits asserts (bits st) n1 slot_bits_state) (\<lambda>(slot, n2).
      case checkName data (steps st) n2 (local_name (loc st)) (local_name_len (loc st)) of
        (n3, name, name_len) \<Rightarrow>
    bindr (collectBits asserts (bits st) n3 n3) (\<lambda>(cluster, n4).
      Inr (st\<lparr>num_bits := n4,
              loc := (loc st)\<lparr>local_machine := machine, local_slot := slot,
                local_name := name, local_name_len := name_len,
                client_id := cluster\<rparr>\<rparr>))))"

definition client_to_local :: "byte list \<Rightarrow> decoder \<Rightarrow> decoder" where
  "client_to_local data st =
    (case checkName data (steps st) (num_bits st) (client_name (loc st)) (client_name_len (loc st)) of
       (n, name, name_len) \<Rightarrow>
         st\<lparr>num_bits := n, loc := (loc st)\<lparr>client_name := name, client_name_len := name_len\<rparr>\<rparr>)"

text \<open>
  The body of the loop after a step has been read. The first test leaves the loop with
  the hasher and the national cluster; otherwise the four tests run in the order of the
  source, each against the \<open>last_level\<close> of the step before, and the step's bit is
  stored at the end.
\<close>

datatype step_result = Break LocationInfo | Continue decoder

definition loop_body ::
  "bool \<Rightarrow> byte list \<Rightarrow> decoder \<Rightarrow> byte \<Rightarrow> int \<Rightarrow> failure + step_result" where
  "loop_body asserts data st hash_bit hash_level =
    (if hash_level > hasher_level \<and> last_level st \<le> hasher_level then
       let h = (if hash_level = 0xff then 1 + ucast hash_bit
                else word_of_int (hash_level - hasher_level))
       in bindr (collectBits asserts (bits st) (num_bits st) (num_bits st)) (\<lambda>(cluster, n).
            Inr (Break ((loc st)\<lparr>hasher := h, national_cluster := cluster\<rparr>)))
     else
       bindr (if hash_level > top_level \<and> last_level st \<le> top_level
              then national_to_top asserts data st else Inr st) (\<lambda>st1.
       bindr (if hash_level > national_level \<and> last_level st \<le> national_level
              then state_to_national asserts data st1 else Inr st1) (\<lambda>st2.
       bindr (if hash_level > state_level \<and> last_level st \<le> state_level
              then local_to_state asserts data st2 else Inr st2) (\<lambda>st3.
         let st4 = (if hash_level > 1 \<and> last_level st \<le> 1 then client_to_local data st3 else st3)
         in Inr (Continue (st4\<lparr>last_level := hash_level,
                               bits := (bits st4)[num_bits st4 := hash_bit],
                               num_bits := num_bits st4 + 1\<rparr>))))))"

text \<open>
  The loop \<^verbatim>\<open>for ( ; ; )\<close> from the step at offset \<open>p\<close>. The store
  \<^verbatim>\<open>steps[num_bits] = p\<close> comes first: with 256 bits pending it is past the end of
  the array. A step that cannot be read ends the function with its status code.
\<close>

lemma parse_step_advances:
  "parse_step data p = Inr (hash_bit, hash_level, p') \<Longrightarrow> p < p' \<and> p' \<le> length data"
  by (auto simp: parse_step_def Let_def split: if_splits)

function extract_loop :: "bool \<Rightarrow> byte list \<Rightarrow> nat \<Rightarrow> decoder \<Rightarrow> failure + LocationInfo" where
  "extract_loop asserts data p st =
    (if num_bits st \<ge> 256 then Inl BufferOverrun
     else
       case parse_step data p of
         Inl e \<Rightarrow> Inl e
       | Inr (hash_bit, hash_level, p') \<Rightarrow>
           (case loop_body asserts data (st\<lparr>steps := (steps st)[num_bits st := p]\<rparr>) hash_bit hash_level of
              Inl e \<Rightarrow> Inl e
            | Inr (Break l) \<Rightarrow> Inr l
            | Inr (Continue st') \<Rightarrow> extract_loop asserts data p' st'))"
  by pat_completeness auto
termination
  by (relation "measure (\<lambda>(asserts, data, p, st). length data - p)")
     (auto dest!: parse_step_advances)

text \<open>
  \<^verbatim>\<open>extractLocation\<close> up to the end of its loop, and the packing of the location id
  into a 64-bit word. The arrays are not initialised in C; no element is read before it
  is stored. The text of the location name is not modelled.
\<close>

definition LocationInfo_zero :: LocationInfo where
  "LocationInfo_zero =
    \<lparr>hasher = 0, national_cluster = 0, national_machine = 0, national_slot = 0,
     national_name = None, national_name_len = 0,
     state_cluster = 0, state_machine = 0, state_slot = 0,
     state_name = None, state_name_len = 0,
     local_cluster = 0, local_machine = 0, local_slot = 0,
     local_name = None, local_name_len = 0,
     client_id = 0, client_name = None, client_name_len = 0\<rparr>"

definition decoder_init :: decoder where
  "decoder_init =
    \<lparr>steps = replicate 256 0, bits = replicate 256 0, num_bits = 0, last_level = - 1,
     loc = LocationInfo_zero\<rparr>"

definition extractLocation_loc :: "bool \<Rightarrow> byte list \<Rightarrow> failure + LocationInfo" where
  "extractLocation_loc asserts hash_chain = extract_loop asserts hash_chain 0 decoder_init"

definition pack_location_id :: "LocationInfo \<Rightarrow> 64 word" where
  "pack_location_id l =
    push_bit 16 (push_bit 16 (push_bit 16 (0 OR ucast (national_cluster l)) OR ucast (state_cluster l))
      OR ucast (local_cluster l)) OR ucast (client_id l)"

definition extractLocation :: "bool \<Rightarrow> byte list \<Rightarrow> failure + 64 word" where
  "extractLocation asserts hash_chain =
    bindr (extractLocation_loc asserts hash_chain) (\<lambda>l. Inr (pack_location_id l))"

section \<open>Verification (gt_timestamp.c)\<close>

text \<open>
  \<^verbatim>\<open>GTTimeStampImplicit\<close> and \<^verbatim>\<open>GTVerificationInfo\<close> of gt_base.h. The explicit
  data are present or not; their fields are not modelled.
\<close>

record GTTimeStampImplicit =
  location_id :: "64 word"
  location_name :: "string option"
  registered_time :: "64 word"
  public_key_fingerprint :: "string option"
  publication_string :: "string option"

record GTVerificationInfo =
  version :: int
  verification_errors :: int
  verification_status :: int
  implicit_data :: GTTimeStampImplicit
  explicit_data_present :: bool

text \<open>
  What a timestamp shows to \<^verbatim>\<open>GTTimestamp_verify\<close>: which of its pointers are null,
  and what each call into OpenSSL and into the parts of the library that are not among
  the sources returns on it. Every such call is made at most once in a verification, so
  its outcome is one field. \<open>time_t_32bit\<close> is the build: \<open>sizeof(time_t)\<close> is 4, or 8.
\<close>

record verify_obs =
  timestamp_is_null :: bool
  token_is_null :: bool
  tst_info_is_null :: bool
  time_signature_is_null :: bool
  verification_info_is_null :: bool
  pkSignature_present :: bool
  pubReference_num :: "int option"
  signer_certificate_found :: bool
  time_t_32bit :: bool
  malloc_info_ok :: bool
  malloc_implicit_ok :: bool
  addExplicit_res :: GTStatusCode
  addExplicit_errors :: int
  GT_shape_res :: GTStatusCode
  GT_findHistoryIdentifier_res :: GTStatusCode
  history_identifier_found :: "64 word"
  extractLocation_res :: GTStatusCode
  extractLocation_id :: "64 word"
  extractLocation_name :: "string option"
  pki_info_rest_res :: GTStatusCode
  pki_fingerprint :: string
  GT_publishedDataToBase32_res :: GTStatusCode
  publication_string_found :: string
  signed_data_version :: int
  tst_info_version :: int
  signer_info_version :: int
  tst_extensions_res :: GTStatusCode
  publicationImprint_res :: GTStatusCode
  location_chain_res :: GTStatusCode
  history_chain_res :: GTStatusCode
  location_length_res :: GTStatusCode
  contentType_attr_ok :: bool
  messageDigest_attr :: "byte list option"
  publicationImprint :: "byte list"
  alg_server_supported :: bool
  alg_client :: int
  digest_alg_parameter_ok :: bool
  tst_info_der_len :: int
  tst_imprint_res :: GTStatusCode
  tst_imprint :: "byte list"
  auth_attr_der_len :: int
  input_imprint_res :: GTStatusCode
  GT_hashChainCalculate_res :: GTStatusCode
  GT_hashChainCalculateNoDepth_res :: GTStatusCode
  output_imprint_res :: GTStatusCode
  output_imprint :: "byte list"
  published_data_der_len :: int
  pubkey_found :: bool
  signature_md_found :: bool
  signature_alg_parameter_ok :: bool
  signature_md_hash_id :: int
  EVP_VerifyInit_res :: int
  EVP_VerifyUpdate_res :: int
  EVP_VerifyFinal_res :: int

text \<open>
  \<^verbatim>\<open>setVerifiedPKISignatureInfo\<close> and \<^verbatim>\<open>setVerifiedPublicationSignatureInfo\<close>: the
  status and the string stored. The first returns \<^verbatim>\<open>GT_INVALID_FORMAT\<close> when the
  token holds no certificate for the signer; the calls after that test are one status.
\<close>

definition setVerifiedPKISignatureInfo :: "verify_obs \<Rightarrow> GTStatusCode \<times> string option" where
  "setVerifiedPKISignatureInfo obs =
    (if \<not> signer_certificate_found obs then (GT_INVALID_FORMAT, None)
     else if pki_info_rest_res obs \<noteq> GT_OK then (pki_info_rest_res obs, None)
     else (GT_OK, Some (pki_fingerprint obs)))"

definition setVerifiedPublicationSignatureInfo :: "verify_obs \<Rightarrow> GTStatusCode \<times> string option" where
  "setVerifiedPublicationSignatureInfo obs =
    (if GT_publishedDataToBase32_res obs \<noteq> GT_OK then (GT_publishedDataToBase32_res obs, None)
     else (GT_OK, Some (publication_string_found obs)))"

text \<open>
  The part of \<^verbatim>\<open>createVerificationInfo\<close> that recovers the registration time. The
  result is the status left in \<open>tmp_res\<close> and the identifier. On a build with a
  32-bit \<open>time_t\<close> the cast \<open>(time_t) history_identifier\<close> keeps the low 32 bits,
  read as a signed number, and the cast back to \<^verbatim>\<open>GT_UInt64\<close> extends the sign; the
  test is compiled away when \<open>time_t\<close> has 64 bits. \<^verbatim>\<open>GT_HashDBIndex\<close>, declared in
  a header that is not among the sources, is taken to be \<^verbatim>\<open>GT_UInt64\<close>, the type the
  test compares it with.
\<close>

definition time_t_overflow :: "64 word \<Rightarrow> bool" where
  "time_t_overflow history_identifier \<longleftrightarrow>
     sint (ucast history_identifier :: 32 word) < 0
     \<or> (scast (ucast history_identifier :: 32 word) :: 64 word) \<noteq> history_identifier"

definition history_tmp_res :: "verify_obs \<Rightarrow> GTStatusCode" where
  "history_tmp_res obs =
    (let tmp_res = (if GT_shape_res obs = GT_OK then GT_findHistoryIdentifier_res obs
                    else GT_shape_res obs)
     in if time_t_32bit obs \<and> tmp_res = GT_OK \<and> time_t_overflow (history_identifier_found obs)
        then GT_INVALID_FORMAT else tmp_res)"

text \<open>
  The bits \<^verbatim>\<open>createVerificationInfo\<close> sets in \<open>verification_status\<close>, from 0: one
  when the time signature has a PKI signature, one when it has publication references.
\<close>

definition status_flags :: "verify_obs \<Rightarrow> int" where
  "status_flags obs =
    (let status1 = (if pkSignature_present obs then 0 OR GT_PUBLIC_KEY_SIGNATURE_PRESENT else 0)
     in case pubReference_num obs of
          None \<Rightarrow> status1
        | Some n \<Rightarrow> if n > 0 then status1 OR GT_PUBLICATION_REFERENCE_PRESENT else status1)"

text \<open>
  \<^verbatim>\<open>createVerificationInfo\<close>: \<open>Inl\<close> the status it returns when it fails (nothing
  is stored then), \<open>Inr\<close> the structure it stores with \<^verbatim>\<open>GT_OK\<close>.
\<close>

definition createVerificationInfo :: "verify_obs \<Rightarrow> bool \<Rightarrow> GTStatusCode + GTVerificationInfo" where
  "createVerificationInfo obs parse_data =
    (if \<not> malloc_info_ok obs then Inl GT_OUT_OF_MEMORY
     else if \<not> malloc_implicit_ok obs then Inl GT_OUT_OF_MEMORY
     else if parse_data \<and> addExplicit_res obs \<noteq> GT_OK then Inl (addExplicit_res obs)
     else
       let errors0 = (if parse_data then GT_NO_FAILURES OR addExplicit_errors obs else GT_NO_FAILURES);
           status2 = status_flags obs;
           tmp_res = history_tmp_res obs
       in if tmp_res \<noteq> GT_OK \<and> tmp_res \<noteq> GT_INVALID_FORMAT \<and> tmp_res \<noteq> GT_INVALID_LINKING_INFO
             \<and> tmp_res \<noteq> GT_UNSUPPORTED_FORMAT
          then Inl tmp_res
          else
            let errors1 = (if tmp_res \<noteq> GT_OK then errors0 OR GT_SYNTACTIC_CHECK_FAILURE else errors0);
                history_identifier = (if tmp_res \<noteq> GT_OK then 0 else history_identifier_found obs)
            in if extractLocation_res obs \<noteq> GT_OK \<and> extractLocation_res obs \<noteq> GT_INVALID_LINKING_INFO
               then Inl (extractLocation_res obs)
               else
                 let errors2 = (if extractLocation_res obs = GT_INVALID_LINKING_INFO
                                then errors1 OR GT_SYNTACTIC_CHECK_FAILURE else errors1);
                     id = (if extractLocation_res obs = GT_OK then extractLocation_id obs else 0);
                     name = (if extractLocation_res obs = GT_OK then extractLocation_name obs else None);
                     sig_info = (if status2 AND GT_PUBLIC_KEY_SIGNATURE_PRESENT = 0
                                 then setVerifiedPublicationSignatureInfo obs
                                 else setVerifiedPKISignatureInfo obs)
                 in if fst sig_info \<noteq> GT_OK then Inl (fst sig_info)
                    else Inr \<lparr>version = 2, verification_errors = errors2, verification_status = status2,
                          implicit_data =
                            \<lparr>location_id = id, location_name = name,
                             registered_time = history_identifier,
                             public_key_fingerprint =
                               (if status2 AND GT_PUBLIC_KEY_SIGNATURE_PRESENT = 0 then None else snd sig_info),
                             publication_string =
                               (if status2 AND GT_PUBLIC_KEY_SIGNATURE_PRESENT = 0 then snd sig_info else None)\<rparr>,
                          explicit_data_present = parse_data\<rparr>)"

text \<open>\<^verbatim>\<open>checkTimestampSyntax\<close>: the first test that fails gives the status.\<close>

definition checkTimestampSyntax :: "verify_obs \<Rightarrow> GTStatusCode" where
  "checkTimestampSyntax obs =
    (if signed_data_version obs \<noteq> 3 then GT_UNSUPPORTED_FORMAT
     else if tst_info_version obs \<noteq> 1 then GT_UNSUPPORTED_FORMAT
     else if signer_info_version obs \<noteq> 1 then GT_UNSUPPORTED_FORMAT
     else if tst_extensions_res obs \<noteq> GT_OK then tst_extensions_res obs
     else if publicationImprint_res obs \<noteq> GT_OK then publicationImprint_res obs
     else if location_chain_res obs \<noteq> GT_OK then location_chain_res obs
     else if history_chain_res obs \<noteq> GT_OK then history_chain_res obs
     else if location_length_res obs \<noteq> GT_OK then location_length_res obs
     else if \<not> contentType_attr_ok obs then GT_INVALID_FORMAT
     else if messageDigest_attr obs = None then GT_INVALID_FORMAT
     else GT_OK)"

text \<open>
  \<^verbatim>\<open>checkHashChain\<close>. The digest in the signed attribute is compared with the bytes
  of the computed imprint after its first.
\<close>

definition checkHashChain :: "verify_obs \<Rightarrow> GTStatusCode" where
  "checkHashChain obs =
    (if length (publicationImprint obs) < 1 then GT_INVALID_FORMAT
     else if \<not> alg_server_supported obs then GT_UNTRUSTED_HASH_ALGORITHM
     else if alg_client obs < 0 then GT_UNTRUSTED_HASH_ALGORITHM
     else if \<not> digest_alg_parameter_ok obs then GT_INVALID_FORMAT
     else if tst_info_der_len obs < 0 then GT_CRYPTO_FAILURE
     else if tst_imprint_res obs \<noteq> GT_OK then tst_imprint_res obs
     else case messageDigest_attr obs of
       None \<Rightarrow> GT_INVALID_FORMAT
     | Some digest \<Rightarrow>
         if length (tst_imprint obs) \<noteq> length digest + 1 \<or> digest \<noteq> drop 1 (tst_imprint obs)
           then GT_WRONG_SIGNED_DATA
         else if auth_attr_der_len obs < 0 then GT_CRYPTO_FAILURE
         else if input_imprint_res obs \<noteq> GT_OK then input_imprint_res obs
         else if GT_hashChainCalculate_res obs \<noteq> GT_OK then GT_hashChainCalculate_res obs
         else if GT_hashChainCalculateNoDepth_res obs \<noteq> GT_OK then GT_hashChainCalculateNoDepth_res obs
         else if output_imprint_res obs \<noteq> GT_OK then output_imprint_res obs
         else if output_imprint obs \<noteq> publicationImprint obs then GT_INVALID_AGGREGATION
         else GT_OK)"

text \<open>\<^verbatim>\<open>checkPublicKeySignature\<close>, called with a certificate that is there.\<close>

definition checkPublicKeySignature :: "verify_obs \<Rightarrow> GTStatusCode" where
  "checkPublicKeySignature obs =
    (if published_data_der_len obs < 0 then GT_CRYPTO_FAILURE
     else if \<not> pubkey_found obs then GT_CRYPTO_FAILURE
     else if \<not> signature_md_found obs then GT_CRYPTO_FAILURE
     else if \<not> signature_alg_parameter_ok obs then GT_INVALID_FORMAT
     else if signature_md_hash_id obs < 0 then GT_UNTRUSTED_SIGNATURE_ALGORITHM
     else if EVP_VerifyInit_res obs = 0 then GT_CRYPTO_FAILURE
     else if EVP_VerifyUpdate_res obs = 0 then GT_CRYPTO_FAILURE
     else if EVP_VerifyFinal_res obs < 0 then GT_CRYPTO_FAILURE
     else if EVP_VerifyFinal_res obs = 0 then GT_INVALID_SIGNATURE
     else GT_OK)"

text \<open>
  \<^verbatim>\<open>GTTimestamp_verify\<close>: the status returned and what is stored in
  \<open>*verification_info\<close>, \<open>None\<close> when nothing is stored. The certificate is looked up
  when the status says that a PKI signature is present.
\<close>

definition GTTimestamp_verify :: "verify_obs \<Rightarrow> bool \<Rightarrow> GTStatusCode \<times> GTVerificationInfo option" where
  "GTTimestamp_verify obs parse_data =
    (if timestamp_is_null obs \<or> token_is_null obs \<or> tst_info_is_null obs
        \<or> time_signature_is_null obs \<or> verification_info_is_null obs
     then (GT_INVALID_ARGUMENT, None)
     else case createVerificationInfo obs parse_data of
       Inl tmp_res \<Rightarrow> (tmp_res, None)
     | Inr tmp_info \<Rightarrow>
         let certificate_found =
               (verification_status tmp_info AND GT_PUBLIC_KEY_SIGNATURE_PRESENT \<noteq> 0
                \<and> signer_certificate_found obs);
             syntax_res = checkTimestampSyntax obs;
             info1 = (if syntax_res \<noteq> GT_OK
                      then tmp_info\<lparr>verification_errors :=
                             verification_errors tmp_info OR GT_SYNTACTIC_CHECK_FAILURE\<rparr>
                      else tmp_info);
             chain_res = checkHashChain obs
         in if chain_res \<noteq> GT_OK \<and> chain_res \<noteq> GT_INVALID_FORMAT
               \<and> chain_res \<noteq> GT_UNTRUSTED_HASH_ALGORITHM \<and> chain_res \<noteq> GT_WRONG_SIGNED_DATA
               \<and> chain_res \<noteq> GT_INVALID_AGGREGATION
            then (chain_res, None)
            else
              let info2 = (if chain_res \<noteq> GT_OK
                           then info1\<lparr>verification_errors :=
                                  verification_errors info1 OR GT_HASHCHAIN_VERIFICATION_FAILURE\<rparr>
                           else info1)
              in if pkSignature_present obs then
                   let pk_res = (if \<not> certificate_found then GT_INVALID_FORMAT
                                 else checkPublicKeySignature obs)
                   in if pk_res \<noteq> GT_OK \<and> pk_res \<noteq> GT_INVALID_FORMAT
                         \<and> pk_res \<noteq> GT_UNTRUSTED_HASH_ALGORITHM
                         \<and> pk_res \<noteq> GT_UNTRUSTED_SIGNATURE_ALGORITHM
                         \<and> pk_res \<noteq> GT_WRONG_SIGNED_DATA \<and> pk_res \<noteq> GT_INVALID_SIGNATURE
                      then (pk_res, None)
                      else (GT_OK,
                            Some (if pk_res \<noteq> GT_OK
                                  then info2\<lparr>verification_errors :=
                                         verification_errors info2 OR GT_PUBLIC_KEY_SIGNATURE_FAILURE\<rparr>
                                  else info2))
                 else (GT_OK, Some info2))"

section \<open>Extension of a timestamp (gt_timestamp.c)\<close>

text \<open>
  The CMS token as far as the extension reads and writes it: what
  \<^verbatim>\<open>GTTimestamp_updateTSTInfo\<close> and \<^verbatim>\<open>GTTimestamp_updateTimeSignature\<close> test, the
  encapsulated content, the stack of signer infos and the bag of certificates (\<open>None\<close>
  is the null pointer). A certificate is a number.
\<close>

record PKCS7_SIGNER_INFO =
  digest_enc_alg_is_time_signature :: bool
  enc_digest :: "byte list"

record PKCS7 =
  type_is_signed :: bool
  detached :: bool
  contents_type_is_TSTInfo :: bool
  contents_is_octet_string :: bool
  contents_octets :: "byte list"
  signer_infos :: "PKCS7_SIGNER_INFO list option"
  cert :: "nat list option"

text \<open>
  \<^verbatim>\<open>struct GTTimestamp_st\<close>. The token is an object on the heap, known by its address:
  \<^verbatim>\<open>PKCS7_dup\<close> makes a second object, and the stores of the extension go to an
  address. \<open>signer_info\<close> points into the token at that address. The decoded
  \<^verbatim>\<open>GTTSTInfo\<close> and \<^verbatim>\<open>GTTimeSignature\<close> are values, standing for what the decoders
  return. The heap allocates upwards from \<open>next_token\<close>.
\<close>

record GTTimestamp =
  token :: "nat option"
  tst_info :: "byte list option"
  signer_info :: "nat option"
  time_signature :: "byte list option"

record heap =
  tokens :: "nat \<Rightarrow> PKCS7 option"
  next_token :: nat

text \<open>\<^verbatim>\<open>GTCertTokenResponse\<close> and its \<^verbatim>\<open>certToken\<close>, as far as the extension reads them.\<close>

record GTCertToken =
  certToken_version :: int
  certToken_extensions :: nat
  certToken_body :: "byte list"

record GTCertTokenResponse =
  response_status :: nat
  certToken :: "GTCertToken option"

text \<open>
  The functions of OpenSSL and of the library that the extension calls and that are not
  among the sources, as parameters: decoders and the encoder return \<open>None\<close> for the
  null pointer, \<^verbatim>\<open>GT_isMallocFailure\<close> is asked after each of them, and the two
  allocations succeed or not.
\<close>

record ext_env =
  d2i_GTCertTokenResponse :: "byte list \<Rightarrow> GTCertTokenResponse option"
  malloc_failure_response :: bool
  GT_analyseResponseStatus :: "nat \<Rightarrow> GTStatusCode"
  GT_checkUnhandledExtensions :: "nat \<Rightarrow> GTStatusCode"
  GT_extendConsistencyCheck :: "byte list \<Rightarrow> GTCertToken \<Rightarrow> GTStatusCode"
  GT_extendTimeSignature :: "byte list \<Rightarrow> GTCertToken \<Rightarrow> GTStatusCode \<times> byte list"
  GTTimestamp_new_ok :: bool
  PKCS7_dup_ok :: bool
  ASN1_item_pack :: "byte list \<Rightarrow> byte list option"
  malloc_failure_pack :: bool
  d2i_GTTSTInfo :: "byte list \<Rightarrow> byte list option"
  malloc_failure_tst_info :: bool
  d2i_GTTimeSignature :: "byte list \<Rightarrow> byte list option"
  malloc_failure_time_signature :: bool

text \<open>
  \<^verbatim>\<open>GTTimestamp_updateTSTInfo\<close> on a timestamp whose token is the object \<open>p7\<close>:
  the status and the new \<open>tst_info\<close>, which is cleared first.
\<close>

definition GTTimestamp_updateTSTInfo :: "ext_env \<Rightarrow> PKCS7 \<Rightarrow> GTStatusCode \<times> byte list option" where
  "GTTimestamp_updateTSTInfo env p7 =
    (if \<not> type_is_signed p7 then (GT_INVALID_FORMAT, None)
     else if detached p7 then (GT_INVALID_FORMAT, None)
     else if \<not> contents_type_is_TSTInfo p7 then (GT_INVALID_FORMAT, None)
     else if \<not> contents_is_octet_string p7 then (GT_INVALID_FORMAT, None)
     else case d2i_GTTSTInfo env (contents_octets p7) of
            None \<Rightarrow> (if malloc_failure_tst_info env then GT_OUT_OF_MEMORY else GT_INVALID_FORMAT, None)
          | Some t \<Rightarrow> (GT_OK, Some t))"

text \<open>
  \<^verbatim>\<open>GTTimestamp_updateTimeSignature\<close> on a timestamp whose token is the object \<open>p7\<close>
  at address \<open>a\<close>: the status, the new \<open>signer_info\<close> and the new \<open>time_signature\<close>,
  both cleared first.
\<close>

definition GTTimestamp_updateTimeSignature ::
  "ext_env \<Rightarrow> nat \<Rightarrow> PKCS7 \<Rightarrow> GTStatusCode \<times> nat option \<times> byte list option" where
  "GTTimestamp_updateTimeSignature env a p7 =
    (if \<not> type_is_signed p7 then (GT_INVALID_FORMAT, None, None)
     else case signer_infos p7 of
       None \<Rightarrow> (GT_INVALID_FORMAT, None, None)
     | Some sis \<Rightarrow>
         if length sis \<noteq> 1 then (GT_INVALID_FORMAT, None, None)
         else if \<not> digest_enc_alg_is_time_signature (sis ! 0) then (GT_INVALID_FORMAT, Some a, None)
         else case d2i_GTTimeSignature env (enc_digest (sis ! 0)) of
                None \<Rightarrow> (if malloc_failure_time_signature env then GT_OUT_OF_MEMORY
                          else GT_INVALID_FORMAT, Some a, None)
              | Some ts \<Rightarrow> (GT_OK, Some a, Some ts))"

text \<open>
  \<^verbatim>\<open>GTTimestamp_free(tmp_timestamp)\<close> at \<open>cleanup\<close>, for a temporary timestamp whose
  token is at \<open>a\<close>: the token is freed.
\<close>

definition free_token :: "heap \<Rightarrow> nat \<Rightarrow> heap" where
  "free_token h a = h\<lparr>tokens := (tokens h)(a := None)\<rparr>"

text \<open>
  \<^verbatim>\<open>GTTimestamp_createExtendedTimestamp\<close>, in three parts. The first is what is done
  with the response: it is decoded, its status, the presence and version of the
  \<^verbatim>\<open>certToken\<close> and its extensions are checked, the consistency check runs and the
  time signature \<open>sig\<close> of the timestamp is extended. \<open>Inl\<close> is the status of the
  failure, \<open>Inr\<close> the extended time signature.
\<close>

definition extend_from_response :: "ext_env \<Rightarrow> byte list \<Rightarrow> byte list \<Rightarrow> GTStatusCode + byte list" where
  "extend_from_response env sig resp_bytes =
    (case d2i_GTCertTokenResponse env resp_bytes of
       None \<Rightarrow> Inl (if malloc_failure_response env then GT_OUT_OF_MEMORY else GT_INVALID_FORMAT)
     | Some resp \<Rightarrow>
         if GT_analyseResponseStatus env (response_status resp) \<noteq> GT_OK
         then Inl (GT_analyseResponseStatus env (response_status resp))
         else case certToken resp of
           None \<Rightarrow> Inl GT_INVALID_FORMAT
         | Some ct \<Rightarrow>
             if certToken_version ct \<noteq> 1 then Inl GT_UNSUPPORTED_FORMAT
             else if GT_checkUnhandledExtensions env (certToken_extensions ct) \<noteq> GT_OK
               then Inl (GT_checkUnhandledExtensions env (certToken_extensions ct))
             else if GT_extendConsistencyCheck env sig ct \<noteq> GT_OK
               then Inl (GT_extendConsistencyCheck env sig ct)
             else if fst (GT_extendTimeSignature env sig ct) \<noteq> GT_OK
               then Inl (fst (GT_extendTimeSignature env sig ct))
             else Inr (snd (GT_extendTimeSignature env sig ct)))"

text \<open>
  The second part, once the duplicate \<open>p7\<close> of the token stands at the address \<open>a\<close>
  of the heap: the extended time signature is packed into the \<open>enc_digest\<close> of the
  first signer info of the duplicate, the certificates of the duplicate are removed,
  and the two cached structures are decoded from it. On every failure the temporary
  timestamp is freed at \<open>cleanup\<close>, and its token with it. The two assertions after
  \<^verbatim>\<open>PKCS7_dup\<close> stop the program where assertions are compiled in; where they are
  not, a token with no signer info makes the function store through a null pointer.
\<close>

definition splice_time_signature ::
  "bool \<Rightarrow> ext_env \<Rightarrow> heap \<Rightarrow> nat \<Rightarrow> PKCS7 \<Rightarrow> byte list
     \<Rightarrow> failure + (GTStatusCode \<times> heap \<times> GTTimestamp option)" where
  "splice_time_signature asserts env h1 a p7 extended_time_signature =
    (if asserts \<and> \<not> (type_is_signed p7 \<and> map_option length (signer_infos p7) = Some 1)
     then Inl AssertionFailed
     else case (if type_is_signed p7 then signer_infos p7 else None) of
       None \<Rightarrow> Inl NullPointer
     | Some sis \<Rightarrow>
         if sis = [] then Inl NullPointer
         else case ASN1_item_pack env extended_time_signature of
           None \<Rightarrow>
             Inr (if malloc_failure_pack env then GT_OUT_OF_MEMORY else GT_CRYPTO_FAILURE,
                  free_token h1 a, None)
         | Some packed \<Rightarrow>
             let p7a = p7\<lparr>signer_infos := Some (sis[0 := (sis ! 0)\<lparr>enc_digest := packed\<rparr>])\<rparr>;
                 p7b = p7a\<lparr>cert := None\<rparr>;
                 h2 = h1\<lparr>tokens := (tokens h1)(a \<mapsto> p7b)\<rparr>;
                 tst = GTTimestamp_updateTSTInfo env p7b
             in if fst tst \<noteq> GT_OK then Inr (fst tst, free_token h2 a, None)
                else
                  let tsig = GTTimestamp_updateTimeSignature env a p7b
                  in if fst tsig \<noteq> GT_OK then Inr (fst tsig, free_token h2 a, None)
                     else Inr (GT_OK, h2,
                            Some \<lparr>token = Some a, tst_info = snd tst,
                                  signer_info = fst (snd tsig),
                                  time_signature = snd (snd tsig)\<rparr>))"

text \<open>
  The whole function. The arguments are the timestamp (\<open>None\<close> for a null pointer),
  the response bytes and their length, and whether \<open>extended_timestamp\<close> is null. The
  result is the status, the heap, and what has been stored in \<open>*extended_timestamp\<close>,
  \<open>None\<close> when nothing has. A token pointer with no object behind it is a null
  pointer. \<^verbatim>\<open>PKCS7_dup\<close> puts a copy of the token at the next free address.
\<close>

definition GTTimestamp_createExtendedTimestamp ::
  "bool \<Rightarrow> ext_env \<Rightarrow> heap \<Rightarrow> GTTimestamp option \<Rightarrow> byte list option \<Rightarrow> nat \<Rightarrow> bool
     \<Rightarrow> failure + (GTStatusCode \<times> heap \<times> GTTimestamp option)" where
  "GTTimestamp_createExtendedTimestamp asserts env h timestamp response response_length
       extended_timestamp_is_null =
    (case timestamp of None \<Rightarrow> Inr (GT_INVALID_ARGUMENT, h, None) | Some ts \<Rightarrow>
     case token ts of None \<Rightarrow> Inr (GT_INVALID_ARGUMENT, h, None) | Some t \<Rightarrow>
     case tokens h t of None \<Rightarrow> Inr (GT_INVALID_ARGUMENT, h, None) | Some p7 \<Rightarrow>
     case tst_info ts of None \<Rightarrow> Inr (GT_INVALID_ARGUMENT, h, None) | Some tst0 \<Rightarrow>
     case time_signature ts of None \<Rightarrow> Inr (GT_INVALID_ARGUMENT, h, None) | Some sig \<Rightarrow>
     case response of None \<Rightarrow> Inr (GT_INVALID_ARGUMENT, h, None) | Some resp_bytes \<Rightarrow>
       if response_length = 0 \<or> extended_timestamp_is_null then Inr (GT_INVALID_ARGUMENT, h, None)
       else case extend_from_response env sig resp_bytes of
         Inl res \<Rightarrow> Inr (res, h, None)
       | Inr extended_time_signature \<Rightarrow>
           if \<not> GTTimestamp_new_ok env then Inr (GT_OUT_OF_MEMORY, h, None)
           else if \<not> PKCS7_dup_ok env then Inr (GT_OUT_OF_MEMORY, h, None)
           else splice_time_signature asserts env
                  (h\<lparr>tokens := (tokens h)(next_token h \<mapsto> p7), next_token := next_token h + 1\<rparr>)
                  (next_token h) p7 extended_time_signature)"

text \<open>
  A heap with one token, a timestamp on it and an environment in which every call
  succeeds, for the evaluations below.
\<close>

definition sample_token :: PKCS7 where
  "sample_token =
    \<lparr>type_is_signed = True, detached = False, contents_type_is_TSTInfo = True,
     contents_is_octet_string = True, contents_octets = [1, 2, 3],
     signer_infos = Some [\<lparr>digest_enc_alg_is_time_signature = True, enc_digest = [4, 5]\<rparr>],
     cert = Some [7]\<rparr>"

definition sample_heap :: heap where
  "sample_heap = \<lparr>tokens = (\<lambda>a. if a = 0 then Some sample_token else None), next_token = 1\<rparr>"

definition sample_timestamp :: GTTimestamp where
  "sample_timestamp =
    \<lparr>token = Some 0, tst_info = Some [1, 2, 3], signer_info = Some 0, time_signature = Some [4, 5]\<rparr>"

definition sample_env :: ext_env where
  "sample_env =
    \<lparr>d2i_GTCertTokenResponse =
       (\<lambda>b. Some \<lparr>response_status = 0,
                       certToken = Some \<lparr>certToken_version = 1, certToken_extensions = 0,
                                          certToken_body = b\<rparr>\<rparr>),
     malloc_failure_response = False,
     GT_analyseResponseStatus = (\<lambda>s. GT_OK),
     GT_checkUnhandledExtensions = (\<lambda>e. GT_OK),
     GT_extendConsistencyCheck = (\<lambda>sig ct. GT_OK),
     GT_extendTimeSignature = (\<lambda>sig ct. (GT_OK, sig @ certToken_body ct)),
     GTTimestamp_new_ok = True, PKCS7_dup_ok = True,
     ASN1_item_pack = Some, malloc_failure_pack = False,
     d2i_GTTSTInfo = Some, malloc_failure_tst_info = False,
     d2i_GTTimeSignature = Some, malloc_failure_time_signature = False\<rparr>"

text \<open>
  The observations of a short-term timestamp that is in order, on a build with a 32-bit
  \<open>time_t\<close>; the evaluations below change single fields of it.
\<close>

definition sample_obs :: verify_obs where
  "sample_obs =
    \<lparr>timestamp_is_null = False, token_is_null = False, tst_info_is_null = False,
     time_signature_is_null = False, verification_info_is_null = False,
     pkSignature_present = True, pubReference_num = None,
     signer_certificate_found = True, time_t_32bit = True,
     malloc_info_ok = True, malloc_implicit_ok = True,
     addExplicit_res = GT_OK, addExplicit_errors = 0,
     GT_shape_res = GT_OK, GT_findHistoryIdentifier_res = GT_OK,
     history_identifier_found = 1300000000,
     extractLocation_res = GT_OK, extractLocation_id = 0x0001000200030004,
     extractLocation_name = None,
     pki_info_rest_res = GT_OK, pki_fingerprint = ''AAAAAAAA'',
     GT_publishedDataToBase32_res = GT_OK, publication_string_found = ''BBBBBBBB'',
     signed_data_version = 3, tst_info_version = 1, signer_info_version = 1,
     tst_extensions_res = GT_OK, publicationImprint_res = GT_OK,
     location_chain_res = GT_OK, history_chain_res = GT_OK, location_length_res = GT_OK,
     contentType_attr_ok = True, messageDigest_attr = Some [5, 6],
     publicationImprint = [1, 9, 9], alg_server_supported = True, alg_client = 1,
     digest_alg_parameter_ok = True, tst_info_der_len = 10,
     tst_imprint_res = GT_OK, tst_imprint = [1, 5, 6],
     auth_attr_der_len = 10, input_imprint_res = GT_OK,
     GT_hashChainCalculate_res = GT_OK, GT_hashChainCalculateNoDepth_res = GT_OK,
     output_imprint_res = GT_OK, output_imprint = [1, 9, 9],
     published_data_der_len = 10, pubkey_found = True, signature_md_found = True,
     signature_alg_parameter_ok = True, signature_md_hash_id = 1,
     EVP_VerifyInit_res = 1, EVP_VerifyUpdate_res = 1, EVP_VerifyFinal_res = 1\<rparr>"


text \<open>
  A timestamp that fails the three checks at once, and one whose registration time is
  \<open>2^31\<close>.
\<close>

definition failing_obs :: verify_obs where
  "failing_obs = sample_obs\<lparr>signed_data_version := 2, output_imprint := [1, 9, 8],
                            EVP_VerifyFinal_res := 0\<rparr>"

definition overflow_obs :: verify_obs where
  "overflow_obs = sample_obs\<lparr>history_identifier_found := 2 ^ 31\<rparr>"

text \<open>
  For the statements about the loop body: the fields the block \<open>local_to_state\<close>
  assigns, and the location record a step leaves.
\<close>

definition local_fields :: "LocationInfo \<Rightarrow> 32 word \<times> 32 word \<times> nat option \<times> 32 word \<times> 32 word" where
  "local_fields l = (local_machine l, local_slot l, local_name l, local_name_len l, client_id l)"

definition result_loc :: "step_result \<Rightarrow> LocationInfo" where
  "result_loc r = (case r of Break l \<Rightarrow> l | Continue st \<Rightarrow> loc st)"

text \<open>
  A sample chain for the evaluations below: SHA-1 steps with the sibling bytes 7, of
  directions 0, 1, 0, 0, 1, 0, 0 and levels 1, 2, 3, 4, 21, 22, 255, and a step whose
  SHA-224 sibling holds the name "AB".
\<close>

definition sample_step :: "byte \<Rightarrow> byte \<Rightarrow> byte list" where
  "sample_step direction level = [1, direction, 0] @ replicate 20 7 @ [level]"

definition sample_chain :: "byte list" where
  "sample_chain =
     sample_step 0 1 @ sample_step 1 2 @ sample_step 0 3 @ sample_step 0 4 @
     sample_step 1 21 @ sample_step 0 22 @ sample_step 0 255"


text \<open>The state of the decoder after the first five steps of the sample chain.\<close>

definition sample_state :: decoder where
  "sample_state = decoder_init
     \<lparr>steps := [0, 24, 48, 72, 96] @ replicate 251 0,
      bits := [1, 0, 1, 1, 0] @ replicate 251 0,
      num_bits := 5, last_level := 21\<rparr>"









section \<open>Properties of the base32 codec\<close>

lemma makeMask_values:
  "makeMask 1 = 1" "makeMask 2 = 3" "makeMask 3 = 7" "makeMask 4 = 15" "makeMask 5 = 31"
  by (simp_all add: numeral_eq_Suc)

lemma mod8_cases:
  fixes n :: nat
  obtains "n mod 8 = 0" | "n mod 8 = 1" | "n mod 8 = 2" | "n mod 8 = 3"
    | "n mod 8 = 4" | "n mod 8 = 5" | "n mod 8 = 6" | "n mod 8 = 7"
proof -
  have "n mod 8 < 8" by simp
  then show ?thesis using that by linarith
qed

lemma addBits_sentinel: "addBits st 255 = addBits st 31"
proof (cases st)
  case (Pair buf bd)
  show ?thesis
    by (rule mod8_cases [of bd]) (simp_all add: Pair addBits_def Let_def makeMask_values)
qed

lemma addBits_count: "0 \<le> v \<Longrightarrow> snd (addBits st v) = snd st + 5"
proof (cases st)
  case (Pair buf bd)
  assume "0 \<le> v"
  then show ?thesis
    by (rule_tac mod8_cases [of bd]) (simp_all add: Pair addBits_def Let_def)
qed

lemma addBits_count_le: "snd (addBits st v) \<le> snd st + 5"
  by (cases "0 \<le> v") (simp_all add: addBits_count, simp add: addBits_def split: prod.splits)

lemma addBits_length: "length (fst (addBits st v)) = length (fst st)"
  by (simp add: addBits_def Let_def split: prod.splits)

lemma or_at_take:
  assumes "k \<le> length b" "k \<le> length b'" "take k b = take k b'"
  shows "take k (b[i := (b ! i) OR x]) = take k (b'[i := (b' ! i) OR x])"
proof (cases "i < k")
  case True
  then have "b ! i = take k b ! i" "b' ! i = take k b' ! i" by simp_all
  then have "b ! i = b' ! i" using assms by simp
  then show ?thesis using assms by (simp add: take_update_swap)
next
  case False
  then show ?thesis using assms by simp
qed

lemma addBits_or_at:
  "addBits (b, n) v =
    (if v < 0 then (b, n)
     else
       let f = (if 8 - n mod 8 > 5 then 5 else 8 - n mod 8);
           b1 = or_at b (n div 8)
                  (word_of_int (push_bit (8 - f - n mod 8) (drop_bit (5 - f) (v AND push_bit (5 - f) (makeMask f)))))
       in if f < 5 then
            (or_at b1 (n div 8 + 1)
               (word_of_int (push_bit (8 - (5 - f))
                  (v AND drop_bit (5 - (5 - f)) (push_bit (5 - (5 - f)) (makeMask (5 - f)))))), n + f + (5 - f))
          else (b1, n + f))"
  unfolding addBits_def or_at_def Let_def prod.case by (rule refl)

lemma or_at_agree:
  assumes "k \<le> length b \<and> k \<le> length b' \<and> take k b = take k b'"
  shows "k \<le> length (or_at b i x) \<and> k \<le> length (or_at b' i x) \<and>
         take k (or_at b i x) = take k (or_at b' i x)"
  using assms or_at_take [of k b b' i x] by (simp add: or_at_def)

lemma addBits_agree:
  assumes "buf_agree k st st'"
  shows "buf_agree k (addBits st v) (addBits st' v)"
proof -
  obtain b n b' where st: "st = (b, n)" "st' = (b', n)"
    using assms by (cases st; cases st') (auto simp: buf_agree_def)
  have a: "k \<le> length b \<and> k \<le> length b' \<and> take k b = take k b'"
    using assms by (simp add: buf_agree_def st)
  note a1 = or_at_agree [OF a]
  note a2 = or_at_agree [OF a1]
  show ?thesis
    unfolding buf_agree_def st addBits_or_at Let_def
    using a a1 a2 by simp
qed

lemma decode_loop_agree:
  "buf_agree k st st' \<Longrightarrow> buf_agree k (decode_loop s st) (decode_loop s st')"
  by (induction s arbitrary: st st') (auto simp: addBits_agree)

lemma decode_loop_count: "snd (decode_loop s st) \<le> snd st + 5 * length s"
proof (induction s arbitrary: st)
  case Nil
  then show ?case by simp
next
  case (Cons c cs)
  have "snd (decode_loop cs (addBits st v)) \<le> snd st + 5 * length (c # cs)" for v
    using Cons [of "addBits st v"] addBits_count_le [of st v] by simp
  moreover have "snd (decode_loop cs st) \<le> snd st + 5 * length (c # cs)"
    using Cons [of st] by simp
  ultimately show ?case by simp
qed

lemma decode_loop_filter:
  "decode_loop s st = decode_loop (filter base32_symbol (takeWhile (\<lambda>c. c \<noteq> CHR ''='') s)) st"
  by (induction s arbitrary: st) (auto simp: base32_symbol_def)

lemma GT_base32Decode_filter:
  "GT_base32Decode s = GT_base32Decode (filter base32_symbol (takeWhile (\<lambda>c. c \<noteq> CHR ''='') s))"
proof -
  define s' where "s' = filter base32_symbol (takeWhile (\<lambda>c. c \<noteq> CHR ''='') s)"
  define n where "n = length s * 5 div 8 + 2"
  define n' where "n' = length s' * 5 div 8 + 2"
  define st where "st = decode_loop s' (replicate n (0::byte), 0)"
  define st' where "st' = decode_loop s' (replicate n' (0::byte), 0)"
  have len: "length s' \<le> length s"
    unfolding s'_def by (rule order_trans [OF length_filter_le]) (simp add: length_takeWhile_le)
  then have nn: "n' \<le> n" unfolding n_def n'_def by (simp add: div_le_mono)
  have "buf_agree n' (replicate n (0::byte), 0) (replicate n' (0::byte), 0)"
    using nn by (simp add: buf_agree_def min_def)
  then have ag: "buf_agree n' st st'"
    unfolding st_def st'_def by (rule decode_loop_agree)
  have "snd st' \<le> 5 * length s'"
    unfolding st'_def using decode_loop_count [of s' "(replicate n' (0::byte), 0)"] by simp
  then have k: "snd st' div 8 \<le> n'" unfolding n'_def
    by (metis div_le_mono mult.commute trans_le_add1)
  have "take (snd st' div 8) (take n' (fst st)) = take (snd st' div 8) (take n' (fst st'))"
    using ag by (simp only: buf_agree_def)
  then have "take (snd st' div 8) (fst st) = take (snd st' div 8) (fst st')"
    by (simp only: take_take min_absorb1 [OF k])
  moreover have "snd st = snd st'" using ag by (simp only: buf_agree_def)
  ultimately have "take (snd st div 8) (fst st) = take (snd st' div 8) (fst st')" by simp
  moreover have "GT_base32Decode s = take (snd st div 8) (fst st)"
    unfolding GT_base32Decode_def Let_def st_def n_def s'_def
    by (simp add: decode_loop_filter [symmetric])
  moreover have "GT_base32Decode s' = take (snd st' div 8) (fst st')"
    unfolding GT_base32Decode_def Let_def st'_def n'_def by simp
  ultimately show ?thesis unfolding s'_def by simp
qed

lemma sentinel_digit:
  "c \<in> {CHR ''0'', CHR ''1'', CHR ''8'', CHR ''9''} \<Longrightarrow>
     isdigit c \<and> c \<noteq> CHR ''='' \<and> uint (base32NumDecTable ! (of_char c - of_char (CHR ''0''))) = 255"
  by (auto simp: isdigit_def base32NumDecTable_def unsigned_minus_1_eq_mask mask_eq_exp_minus_1)

lemma seven_digit:
  "isdigit (CHR ''7'') \<and> uint (base32NumDecTable ! (of_char (CHR ''7'') - of_char (CHR ''0''))) = 31"
  by (simp add: isdigit_def base32NumDecTable_def)


lemma decode_loop_sentinel_map:
  "decode_loop (map (\<lambda>c. if c \<in> {CHR ''0'', CHR ''1'', CHR ''8'', CHR ''9''} then CHR ''7'' else c) s) st
     = decode_loop s st"
proof (induction s arbitrary: st)
  case Nil
  then show ?case by simp
next
  case (Cons c cs)
  show ?case
  proof (cases "c \<in> {CHR ''0'', CHR ''1'', CHR ''8'', CHR ''9''}")
    case True
    then show ?thesis
      using sentinel_digit [of c] seven_digit Cons [of "addBits st 31"]
      by (simp add: addBits_sentinel del: insert_iff)
  next
    case False
    then show ?thesis using Cons by simp
  qed
qed

lemma decode_loop_length: "length (fst (decode_loop s st)) = length (fst st)"
  by (induction s arbitrary: st) (simp_all add: addBits_length)

lemma letter_value:
  "is_upper_letter c \<or> is_lower_letter c \<Longrightarrow> 0 \<le> int (toupper c) - int (of_char (CHR ''A''))"
  by (auto simp: is_upper_letter_def is_lower_letter_def toupper_def)

lemma decode_loop_count_eq:
  "snd (decode_loop s st)
     = snd st + 5 * length (filter base32_symbol (takeWhile (\<lambda>c. c \<noteq> CHR ''='') s))"
proof (induction s arbitrary: st)
  case Nil
  then show ?case by simp
next
  case (Cons c cs)
  show ?case
    using Cons [of st] Cons [of "addBits st (uint (base32NumDecTable ! (of_char c - of_char (CHR ''0''))))"]
      Cons [of "addBits st (int (toupper c) - int (of_char (CHR ''A'')))"]
      letter_value [of c]
    by (simp add: base32_symbol_def addBits_count)
qed

lemma GT_base32Decode_length:
  "length (GT_base32Decode s)
     = 5 * length (filter base32_symbol (takeWhile (\<lambda>c. c \<noteq> CHR ''='') s)) div 8"
proof -
  let ?k = "length (filter base32_symbol (takeWhile (\<lambda>c. c \<noteq> CHR ''='') s))"
  have "?k \<le> length s"
    by (rule order_trans [OF length_filter_le]) (simp add: length_takeWhile_le)
  then have "5 * ?k div 8 \<le> length s * 5 div 8 + 2"
    by (metis div_le_mono mult.commute mult_le_mono2 trans_le_add1)
  then show ?thesis
    by (simp add: GT_base32Decode_def Let_def decode_loop_length decode_loop_count_eq)
qed

lemma decode_loop_sentinel_step:
  "decode_loop (CHR ''0'' # cs) st = decode_loop cs (addBits st 31)"
  "decode_loop (CHR ''1'' # cs) st = decode_loop cs (addBits st 31)"
  "decode_loop (CHR ''8'' # cs) st = decode_loop cs (addBits st 31)"
  "decode_loop (CHR ''9'' # cs) st = decode_loop cs (addBits st 31)"
  using sentinel_digit [of "CHR ''0''"] sentinel_digit [of "CHR ''1''"]
    sentinel_digit [of "CHR ''8''"] sentinel_digit [of "CHR ''9''"]
  by (simp_all add: addBits_sentinel)

lemma GT_base32Decode_instances:
  "GT_base32Decode ''01897777'' = [255, 255, 255, 255, 255]"
  "GT_base32Decode ''A8AAAAAA'' = [7, 192, 0, 0, 0]"
  "GT_base32Decode ''AAAAAAA1'' = [0, 0, 0, 0, 31]"
  "GT_base32Decode ''MFRGG==='' = [97, 98, 99]"
  "GT_base32Decode ''mf-R g!=MFRGG'' = [97, 98]"
  by code_simp+

text \<open>
  C10. \<^verbatim>\<open>GT_base32Decode\<close> neither skips nor rejects the digits 0, 1, 8 and 9: their
  table entries are the byte 255, which is not negative as an int, and \<^verbatim>\<open>addBits\<close>
  stores for 255 what it stores for 31, the value of the digit 7, and counts five bits.
  Each of the four digits makes the loop add the five bits of 31 to the output, as the
  digit 7 does, the output being the whole bytes of what the loop has stored: \<open>01897777\<close> decodes to five bytes 255, the 8 of \<open>A8AAAAAA\<close> gives the
  bits 5 to 9 of the output (bytes 7 and 192), the 1 of \<open>AAAAAAA1\<close> its last five
  bits. So decoding a string is decoding it with every 0, 1, 8 and 9 replaced by 7.
  Every character that is neither a letter nor a digit is skipped and \<open>=\<close> ends the
  decoding: decoding a string is decoding its letters and digits before the first
  \<open>=\<close>, each of them gives five bits of the output, whose length is the number of
  whole bytes in them, and \<open>mf-R g!=MFRGG\<close> decodes to the two bytes of \<open>MFRG\<close>.
\<close>

theorem GT_base32Decode_sentinel_digits:
  "uint (base32NumDecTable ! 0) = 255 \<and> uint (base32NumDecTable ! 1) = 255
   \<and> uint (base32NumDecTable ! 8) = 255 \<and> uint (base32NumDecTable ! 9) = 255
   \<and> addBits st 255 = addBits st 31
   \<and> snd (addBits st 255) = snd st + 5
   \<and> decode_loop (CHR ''7'' # cs) st = decode_loop cs (addBits st 31)
   \<and> decode_loop (CHR ''0'' # cs) st = decode_loop cs (addBits st 31)
   \<and> decode_loop (CHR ''1'' # cs) st = decode_loop cs (addBits st 31)
   \<and> decode_loop (CHR ''8'' # cs) st = decode_loop cs (addBits st 31)
   \<and> decode_loop (CHR ''9'' # cs) st = decode_loop cs (addBits st 31)
   \<and> decode_loop (CHR ''='' # cs) st = st
   \<and> GT_base32Decode s
       = take (snd (decode_loop s (replicate (length s * 5 div 8 + 2) 0, 0)) div 8)
           (fst (decode_loop s (replicate (length s * 5 div 8 + 2) 0, 0)))
   \<and> GT_base32Decode ''01897777'' = [255, 255, 255, 255, 255]
   \<and> GT_base32Decode ''A8AAAAAA'' = [7, 192, 0, 0, 0]
   \<and> GT_base32Decode ''AAAAAAA1'' = [0, 0, 0, 0, 31]
   \<and> GT_base32Decode ''MFRGG==='' = [97, 98, 99]
   \<and> GT_base32Decode ''mf-R g!=MFRGG'' = [97, 98]
   \<and> GT_base32Decode
        (map (\<lambda>c. if c \<in> {CHR ''0'', CHR ''1'', CHR ''8'', CHR ''9''} then CHR ''7'' else c) s)
       = GT_base32Decode s
   \<and> GT_base32Decode s
       = GT_base32Decode (filter base32_symbol (takeWhile (\<lambda>c. c \<noteq> CHR ''='') s))
   \<and> length (GT_base32Decode s)
       = 5 * length (filter base32_symbol (takeWhile (\<lambda>c. c \<noteq> CHR ''='') s)) div 8"
proof -
  have "uint (base32NumDecTable ! 0) = 255 \<and> uint (base32NumDecTable ! 1) = 255
     \<and> uint (base32NumDecTable ! 8) = 255 \<and> uint (base32NumDecTable ! 9) = 255"
    by (simp add: base32NumDecTable_def unsigned_minus_1_eq_mask mask_eq_exp_minus_1)
  moreover have "snd (addBits st 255) = snd st + 5"
    by (rule addBits_count) simp
  moreover have "decode_loop (CHR ''7'' # cs) st = decode_loop cs (addBits st 31)"
    using seven_digit by simp
  moreover have "decode_loop (CHR ''='' # cs) st = st"
    by simp
  moreover have "GT_base32Decode s
       = take (snd (decode_loop s (replicate (length s * 5 div 8 + 2) 0, 0)) div 8)
           (fst (decode_loop s (replicate (length s * 5 div 8 + 2) 0, 0)))"
    by (simp add: GT_base32Decode_def Let_def)
  moreover have "GT_base32Decode
        (map (\<lambda>c. if c \<in> {CHR ''0'', CHR ''1'', CHR ''8'', CHR ''9''} then CHR ''7'' else c) s)
       = GT_base32Decode s"
    unfolding GT_base32Decode_def Let_def by (simp only: decode_loop_sentinel_map length_map)
  ultimately show ?thesis
    using addBits_sentinel [of st] GT_base32Decode_filter [of s] GT_base32Decode_length [of s]
      decode_loop_sentinel_step [of cs st] GT_base32Decode_instances
    by blast
qed

text \<open>
  C9 (the code does otherwise). With \<open>group_len = 0\<close> the test
  \<^verbatim>\<open>ret_len % (group_len + 1) == group_len\<close> holds after every character, so the
  single byte 0 is written as fourteen characters with a dash after each but the last,
  into a buffer that \<^verbatim>\<open>buf_len\<close> sized at nine bytes for the eight characters of the
  plain encoding and the NUL. With \<open>group_len = 8\<close> three bytes are written as the
  plain padded encoding.
\<close>

theorem GT_base32Encode_group_len_0:
  "encode_writes [0] 0 = Some ''A-A=-=-=-=-=-=''
   \<and> encode_writes [0x61, 0x62, 0x63] 0 = Some ''M-F-R-G-G=-=-=''
   \<and> encode_buf_len 1 0 = 9
   \<and> GT_base32Encode [0] 0 = Inl BufferOverrun
   \<and> GT_base32Encode [0x61, 0x62, 0x63] 8 = Inr ''MFRGG===''"
proof -
  have "encode_writes [0] 0 = Some ''A-A=-=-=-=-=-=''"
    by code_simp
  moreover have "encode_writes [0x61, 0x62, 0x63] 0 = Some ''M-F-R-G-G=-=-=''"
    by code_simp
  moreover have "encode_buf_len 1 0 = 9"
    by code_simp
  moreover have "GT_base32Encode [0] 0 = Inl BufferOverrun"
    by code_simp
  moreover have "GT_base32Encode [0x61, 0x62, 0x63] 8 = Inr ''MFRGG===''"
    by code_simp
  ultimately show ?thesis by blast
qed

section \<open>Properties of the location decoder\<close>

lemma GT_getHashSize_le: "GT_getHashSize a \<le> 64"
  by (simp add: GT_getHashSize_def)

lemma parse_step_Inr_iff:
  "parse_step data p = Inr (hash_bit, hash_level, p') \<longleftrightarrow>
     p + 3 + GT_getHashSize (unat (data ! (p + 2))) < length data
     \<and> (data ! (p + 1) = 0 \<or> data ! (p + 1) = 1)
     \<and> GT_getHashSize (unat (data ! (p + 2))) \<noteq> 0
     \<and> hash_bit = 1 - data ! (p + 1)
     \<and> hash_level = uint (data ! (p + 3 + GT_getHashSize (unat (data ! (p + 2)))))
     \<and> p' = p + 4 + GT_getHashSize (unat (data ! (p + 2)))"
proof -
  have e: "p + 3 + n = Suc (Suc (Suc (p + n)))" "p + 4 + n = Suc (Suc (Suc (Suc (p + n))))" for n
    by simp_all
  show ?thesis
    by (auto simp: parse_step_def Let_def e split: if_splits)
qed

text \<open>
  C2 (as the code has it). A step is read as four bytes and a digest: the byte at the
  step's offset, which the decoder steps over without reading it, then the direction
  (0 or 1), the id of the sibling's hash algorithm (of known digest size), the sibling
  imprint of that size, and the level. \<^verbatim>\<open>parse_step\<close> accepts the step at offset
  \<open>p\<close> exactly when these bytes lie inside the chain and the direction and the
  algorithm are valid; the next step starts \<open>4 + digest size\<close> bytes later.
\<close>

theorem parse_step_layout:
  "parse_step data p = Inr (hash_bit, hash_level, p') \<longleftrightarrow>
     p + 3 + GT_getHashSize (unat (data ! (p + 2))) < length data
     \<and> (data ! (p + 1) = 0 \<or> data ! (p + 1) = 1)
     \<and> GT_getHashSize (unat (data ! (p + 2))) \<noteq> 0
     \<and> hash_bit = 1 - data ! (p + 1)
     \<and> hash_level = uint (data ! (p + 3 + GT_getHashSize (unat (data ! (p + 2)))))
     \<and> p' = p + 4 + GT_getHashSize (unat (data ! (p + 2)))"
proof
  assume "parse_step data p = Inr (hash_bit, hash_level, p')"
  then show "p + 3 + GT_getHashSize (unat (data ! (p + 2))) < length data
     \<and> (data ! (p + 1) = 0 \<or> data ! (p + 1) = 1)
     \<and> GT_getHashSize (unat (data ! (p + 2))) \<noteq> 0
     \<and> hash_bit = 1 - data ! (p + 1)
     \<and> hash_level = uint (data ! (p + 3 + GT_getHashSize (unat (data ! (p + 2)))))
     \<and> p' = p + 4 + GT_getHashSize (unat (data ! (p + 2)))"
    by (rule iffD1 [OF parse_step_Inr_iff])
next
  assume "p + 3 + GT_getHashSize (unat (data ! (p + 2))) < length data
     \<and> (data ! (p + 1) = 0 \<or> data ! (p + 1) = 1)
     \<and> GT_getHashSize (unat (data ! (p + 2))) \<noteq> 0
     \<and> hash_bit = 1 - data ! (p + 1)
     \<and> hash_level = uint (data ! (p + 3 + GT_getHashSize (unat (data ! (p + 2)))))
     \<and> p' = p + 4 + GT_getHashSize (unat (data ! (p + 2)))"
  then show "parse_step data p = Inr (hash_bit, hash_level, p')"
    by (rule iffD2 [OF parse_step_Inr_iff])
qed

lemma parse_step_encoded:
  assumes "d = 0 \<or> d = 1" "length sib = GT_getHashSize (unat alg)" "sib \<noteq> []"
  shows "parse_step (pre @ [a, d, alg] @ sib @ [lvl] @ post) (length pre)
           = Inr (1 - d, uint lvl, length pre + 4 + length sib)"
proof -
  let ?data = "pre @ [a, d, alg] @ sib @ [lvl] @ post"
  have 1: "?data ! (length pre + 1) = d" by (simp add: nth_append)
  have 2: "?data ! (length pre + 2) = alg" by (simp add: nth_append)
  have 3: "?data ! (length pre + 3 + length sib) = lvl" by (simp add: nth_append)
  show ?thesis
    unfolding parse_step_Inr_iff 1 2 using assms 3 by (auto simp: assms(2) [symmetric])
qed

text \<open>
  C2 as stated fails: the 31 bytes direction 0, algorithm 3 (SHA-224), 28 imprint bytes,
  level 255, with no byte before the direction, are refused (the decoder reads the
  algorithm byte 3 as the direction), and the same step after one more byte is read.
\<close>

theorem parse_step_layout_counterexample:
  "parse_step ([0, 3] @ replicate 28 7 @ [255]) 0 = Inl (Status GT_INVALID_LINKING_INFO)
   \<and> extractLocation True ([0, 3] @ replicate 28 7 @ [255]) = Inl (Status GT_INVALID_LINKING_INFO)
   \<and> parse_step ([1, 0, 3] @ replicate 28 7 @ [255]) 0 = Inr (1, 255, 32)"
proof -
  have "parse_step ([0, 3] @ replicate 28 7 @ [255]) 0 = Inl (Status GT_INVALID_LINKING_INFO)"
    by code_simp
  moreover have "extractLocation True ([0, 3] @ replicate 28 7 @ [255]) = Inl (Status GT_INVALID_LINKING_INFO)"
    by code_simp
  moreover have "parse_step ([1, 0, 3] @ replicate 28 7 @ [255]) 0 = Inr (1, 255, 32)"
    by code_simp
  ultimately show ?thesis by blast
qed

lemma collectBits_loop_all: "len \<le> num \<Longrightarrow> snd (collectBits_loop buf len num res) = 0"
  by (induction buf len num res rule: collectBits_loop.induct) auto

lemma collectBits_all: "collectBits asserts buf n n = Inr (v, n') \<Longrightarrow> n' = 0"
  using collectBits_loop_all [of n n buf 0]
  by (auto simp: collectBits_def split: if_splits)

lemma collectBits_ok:
  "(asserts \<longrightarrow> num \<le> len \<and> num \<le> 32) \<Longrightarrow> \<exists>v n. collectBits asserts buf len num = Inr (v, n)"
  by (cases "collectBits_loop buf len num 0") (auto simp: collectBits_def)

text \<open>
  C4 (as the code has it). At the first step whose level exceeds 80 while the level
  before it was at most 80 the loop ends, and the hasher id is \<open>1 + hash_bit\<close>, that
  is \<open>1 + (1 - direction)\<close>, if the level byte is 0xFF and \<open>level - 80\<close> otherwise.
  The decoder returns there when at most 32 bits are pending (fewer than 256 where
  assertions are compiled out).
\<close>

theorem hasher_at_boundary:
  assumes "parse_step data p = Inr (hash_bit, hash_level, p')"
    and "hash_level > 80" and "last_level st \<le> 80"
    and "if asserts then num_bits st \<le> 32 else num_bits st < 256"
  shows "\<exists>l. extract_loop asserts data p st = Inr l \<and>
           hasher l = (if data ! (p + 3 + GT_getHashSize (unat (data ! (p + 2)))) = 0xff
                       then 1 + (1 - ucast (data ! (p + 1)))
                       else ucast (data ! (p + 3 + GT_getHashSize (unat (data ! (p + 2))))) - 80)"
proof -
  let ?lv = "data ! (p + 3 + GT_getHashSize (unat (data ! (p + 2))))"
  let ?st = "st\<lparr>steps := (steps st)[num_bits st := p]\<rparr>"
  from assms(1) have d: "data ! (p + 1) = 0 \<or> data ! (p + 1) = 1"
    and hb: "hash_bit = 1 - data ! (p + 1)" and hl: "hash_level = uint ?lv"
    by (simp_all add: parse_step_Inr_iff)
  have nb: "num_bits st < 256" using assms(4) by (auto split: if_splits)
  have "asserts \<longrightarrow> num_bits st \<le> num_bits st \<and> num_bits st \<le> 32"
    using assms(4) by (auto split: if_splits)
  then obtain v n where cb: "collectBits asserts (bits st) (num_bits st) (num_bits st) = Inr (v, n)"
    using collectBits_ok by blast
  define h :: "32 word" where
    "h = (if hash_level = 0xff then 1 + ucast hash_bit else word_of_int (hash_level - hasher_level))"
  have body: "loop_body asserts data ?st hash_bit hash_level
          = Inr (Break ((loc st)\<lparr>hasher := h, national_cluster := v\<rparr>))"
    using assms(2,3) cb by (simp add: loop_body_def hasher_level_def bindr_def h_def)
  have run: "extract_loop asserts data p st = Inr ((loc st)\<lparr>hasher := h, national_cluster := v\<rparr>)"
    using nb assms(1) body by (subst extract_loop.simps) simp
  have ff: "(hash_level = 0xff) = (?lv = 0xff)"
    unfolding hl by (auto simp: word_uint_eq_iff)
  have h1: "(1 + ucast hash_bit :: 32 word) = 1 + (1 - ucast (data ! (p + 1)))"
    using d hb by auto
  have h2: "(word_of_int (hash_level - hasher_level) :: 32 word) = ucast ?lv - 80"
    unfolding hl hasher_level_def by (simp add: unsigned_eq_0_iff)
  show ?thesis
    unfolding run using h1 h2 ff by (simp add: h_def)
qed

theorem hasher_at_boundary_witness:
  "\<exists>l. extract_loop True ([1, 0, 0] @ replicate 20 7 @ [255]) 0 decoder_init = Inr l \<and> hasher l = 2"
proof -
  let ?d = "[1, 0, 0] @ replicate 20 7 @ [255 :: byte]"
  have p: "parse_step ?d 0 = Inr (1, 255, 24)" by code_simp
  have a: "(255 :: int) > 80" by simp
  have b: "last_level decoder_init \<le> 80" by (simp add: decoder_init_def)
  have c: "if True then num_bits decoder_init \<le> 32 else num_bits decoder_init < 256"
    by (simp add: decoder_init_def)
  have lv: "?d ! (0 + 3 + GT_getHashSize (unat (?d ! (0 + 2)))) = 0xff" by code_simp
  have h: "(1 + (1 - ucast (?d ! (0 + 1))) :: 32 word) = 2" by code_simp
  show ?thesis
    using hasher_at_boundary [OF p a b c] unfolding lv h by simp
qed

text \<open>
  C4 as stated fails: a chain of one step with direction 0 and level 0xFF gives the
  hasher id 2, not \<open>1 + direction = 1\<close>.
\<close>

theorem hasher_at_boundary_counterexample:
  "\<exists>l. extractLocation_loc True ([1, 0, 0] @ replicate 20 7 @ [255]) = Inr l
        \<and> hasher l = 2 \<and> hasher l \<noteq> 1 + ucast (([1, 0, 0] @ replicate 20 7 @ [255 :: byte]) ! 1)"
proof -
  have "map_sum id hasher (extractLocation_loc True ([1, 0, 0] @ replicate 20 7 @ [255])) = Inr 2"
    by code_simp
  then obtain l where "extractLocation_loc True ([1, 0, 0] @ replicate 20 7 @ [255]) = Inr l" "hasher l = 2"
    by (cases "extractLocation_loc True ([1, 0, 0] @ replicate 20 7 @ [255])") auto
  then show ?thesis by auto
qed


lemma bindr_Inr: "bindr m f = Inr y \<longleftrightarrow> (\<exists>x. m = Inr x \<and> f x = Inr y)"
  by (cases m) (simp_all add: bindr_def)

lemma national_to_top_frame:
  assumes "national_to_top asserts data st = Inr st'"
  shows "num_bits st' = 0 \<and> local_fields (loc st') = local_fields (loc st)
         \<and> last_level st' = last_level st"
  using assms
  by (auto simp: national_to_top_def bindr_Inr local_fields_def case_prod_beta dest: collectBits_all)

lemma state_to_national_frame:
  assumes "state_to_national asserts data st = Inr st'"
  shows "num_bits st' = 0 \<and> local_fields (loc st') = local_fields (loc st)
         \<and> last_level st' = last_level st"
  using assms
  by (auto simp: state_to_national_def bindr_Inr local_fields_def case_prod_beta dest: collectBits_all)

lemma client_to_local_frame:
  "local_fields (loc (client_to_local data st)) = local_fields (loc st)"
  by (simp add: client_to_local_def local_fields_def case_prod_beta)

lemma client_to_local_frame_if:
  "local_fields (loc (if c then client_to_local data st else st)) = local_fields (loc st)"
  by (simp add: client_to_local_frame)

lemma levels: "state_level = 21" "national_level = 42" "top_level = 64" "hasher_level = 80"
  by (simp_all add: state_level_def national_level_def top_level_def hasher_level_def
      gdepth_state_def gdepth_national_def gdepth_top_def slot_bits_state_def ab_bits_state_def
      slot_bits_national_def ab_bits_national_def slot_bits_top_def ab_bits_top_def)

















text \<open>
  C5 (as the code has it). \<open>state_level\<close> is \<open>19 + 2 + 2 - 2 = 21\<close>. Whenever the
  loop body returns, the fields of the local region (\<open>local_machine\<close>, \<open>local_slot\<close>,
  \<open>local_name\<close> and \<open>client_id\<close>) are those \<^verbatim>\<open>local_to_state\<close> extracts if the
  step's level exceeds 21 while the level before was at most 21 and the loop does not
  end at this step (the level is at most 80), and are unchanged otherwise. Below level
  43 the block runs on the state the step found; above, on what the blocks of the
  higher thresholds left, with no bit pending.
\<close>

theorem local_to_state_fires:
  assumes "loop_body asserts data st hash_bit hash_level = Inr r"
  shows "state_level = 21 \<and>
    (if 21 < hash_level \<and> hash_level \<le> 80 \<and> last_level st \<le> 21
     then \<exists>st2 st3. local_to_state asserts data st2 = Inr st3
            \<and> local_fields (result_loc r) = local_fields (loc st3)
            \<and> (if hash_level \<le> 42 then st2 = st
                else num_bits st2 = 0 \<and> local_fields (loc st2) = local_fields (loc st))
     else local_fields (result_loc r) = local_fields (loc st))"
proof (cases "hash_level > 80 \<and> last_level st \<le> 80")
  case True
  then have quiet: "\<not> (21 < hash_level \<and> hash_level \<le> 80 \<and> last_level st \<le> 21)" by simp
  have "local_fields (result_loc r) = local_fields (loc st)"
    using assms True
    by (auto simp: loop_body_def levels bindr_Inr result_loc_def local_fields_def Let_def)
  then show ?thesis
    using levels(1) unfolding if_not_P [OF quiet] by simp
next
  case False
  let ?top = "hash_level > 64 \<and> last_level st \<le> 64"
  let ?nat = "hash_level > 42 \<and> last_level st \<le> 42"
  let ?sta = "hash_level > 21 \<and> last_level st \<le> 21"
  from assms False obtain st1 st2 st3 where
    s1: "(if ?top then national_to_top asserts data st else Inr st) = Inr st1" and
    s2: "(if ?nat then state_to_national asserts data st1 else Inr st1) = Inr st2" and
    s3: "(if ?sta then local_to_state asserts data st2 else Inr st2) = Inr st3" and
    r: "local_fields (result_loc r) = local_fields (loc st3)"
    by (auto simp: loop_body_def levels bindr_Inr result_loc_def Let_def client_to_local_frame_if)
  have f1: "local_fields (loc st1) = local_fields (loc st)" "?top \<Longrightarrow> num_bits st1 = 0"
    using s1 national_to_top_frame [of asserts data st st1] by (auto split: if_splits)
  have f2: "local_fields (loc st2) = local_fields (loc st)" "?nat \<Longrightarrow> num_bits st2 = 0"
    "\<not> ?top \<Longrightarrow> \<not> ?nat \<Longrightarrow> st2 = st"
    using s1 s2 f1 state_to_national_frame [of asserts data st1 st2] by (auto split: if_splits)
  show ?thesis
  proof (cases "21 < hash_level \<and> hash_level \<le> 80 \<and> last_level st \<le> 21")
    case fires: True
    then have "local_to_state asserts data st2 = Inr st3" using s3 by simp
    moreover have "hash_level \<le> 42 \<Longrightarrow> st2 = st" using f2(3) by simp
    moreover have "\<not> hash_level \<le> 42 \<Longrightarrow> num_bits st2 = 0" using f2(2) fires by simp
    ultimately show ?thesis
      using r f2(1) levels(1) unfolding if_P [OF fires] by (cases "hash_level \<le> 42") auto
  next
    case quiet: False
    then have "\<not> ?sta" using False by auto
    then have "st3 = st2" using s3 by (auto split: if_splits)
    then show ?thesis
      using r f2(1) levels(1) unfolding if_not_P [OF quiet] by simp
  qed
qed

theorem local_to_state_fires_witness:
  "state_level = 21 \<and>
   (\<exists>r st3. loop_body True sample_chain sample_state 1 22 = Inr r
      \<and> local_to_state True sample_chain sample_state = Inr st3
      \<and> local_fields (result_loc r) = local_fields (loc st3)
      \<and> local_fields (loc st3) = (1, 2, None, 0, 1))"
proof -
  have "\<not> isl (loop_body True sample_chain sample_state 1 22)" by code_simp
  then obtain r where body: "loop_body True sample_chain sample_state 1 22 = Inr r"
    by (cases "loop_body True sample_chain sample_state 1 22") auto
  have c: "21 < (22 :: int) \<and> (22 :: int) \<le> 80 \<and> last_level sample_state \<le> 21"
    by (simp add: sample_state_def)
  have lf: "map_sum id (\<lambda>s. local_fields (loc s)) (local_to_state True sample_chain sample_state)
              = Inr (1, 2, None, 0, 1)"
    by code_simp
  from local_to_state_fires [OF body] show ?thesis
    unfolding if_P [OF c] using body lf by auto
qed

text \<open>
  C5 as stated fails: the threshold is not 22. On the sample chain, whose levels are
  1, 2, 3, 4, 21, 22, 255, the local fields are extracted at the step of level 22, from
  the bits of the five steps before it; the loop ends at the step of level 255.
\<close>

theorem local_to_state_fires_counterexample:
  "state_level \<noteq> 22
   \<and> map_sum id local_fields (extractLocation_loc True sample_chain) = Inr (1, 2, None, 0, 1)"
proof -
  have "state_level \<noteq> 22" by (simp add: levels)
  moreover have "map_sum id local_fields (extractLocation_loc True sample_chain) = Inr (1, 2, None, 0, 1)"
    by code_simp
  ultimately show ?thesis by blast
qed

section \<open>Properties of the verification\<close>

lemma flag_values:
  "GT_NO_FAILURES = 0" "GT_SYNTACTIC_CHECK_FAILURE = 1" "GT_HASHCHAIN_VERIFICATION_FAILURE = 2"
  "GT_PUBLIC_KEY_SIGNATURE_FAILURE = 16" "GT_PUBLIC_KEY_SIGNATURE_PRESENT = 1"
  "GT_PUBLICATION_REFERENCE_PRESENT = 2"
  by (simp_all add: GT_NO_FAILURES_def GT_SYNTACTIC_CHECK_FAILURE_def
      GT_HASHCHAIN_VERIFICATION_FAILURE_def GT_PUBLIC_KEY_SIGNATURE_FAILURE_def
      GT_PUBLIC_KEY_SIGNATURE_PRESENT_def GT_PUBLICATION_REFERENCE_PRESENT_def)

lemma status_flags_present:
  "status_flags obs AND GT_PUBLIC_KEY_SIGNATURE_PRESENT = 0 \<longleftrightarrow> \<not> pkSignature_present obs"
proof -
  have a: "(1 :: int) AND 1 = 1" "((1 :: int) OR 2) AND 1 = 1" "(2 :: int) AND 1 = 0"
    by simp_all
  show ?thesis
    by (simp add: status_flags_def flag_values a split: option.splits)
qed

lemma createVerificationInfo_certificate:
  assumes "createVerificationInfo obs pd = Inr info0" "pkSignature_present obs"
  shows "signer_certificate_found obs \<and> verification_status info0 AND GT_PUBLIC_KEY_SIGNATURE_PRESENT \<noteq> 0"
proof -
  have p: "status_flags obs AND GT_PUBLIC_KEY_SIGNATURE_PRESENT \<noteq> 0"
    using assms(2) by (simp add: status_flags_present)
  have "verification_status info0 = status_flags obs \<and> fst (setVerifiedPKISignatureInfo obs) = GT_OK"
    using assms(1) p by (simp add: createVerificationInfo_def Let_def split: if_splits) auto
  then show ?thesis
    using p by (auto simp: setVerifiedPKISignatureInfo_def split: if_splits)
qed

lemma checkPublicKeySignature_codes:
  "checkPublicKeySignature obs \<in> {GT_OK, GT_CRYPTO_FAILURE, GT_INVALID_FORMAT,
      GT_UNTRUSTED_SIGNATURE_ALGORITHM, GT_INVALID_SIGNATURE}"
  by (simp add: checkPublicKeySignature_def)

lemma createVerificationInfo_Inl:
  "createVerificationInfo obs pd = Inl c \<Longrightarrow> c \<noteq> GT_OK"
  unfolding createVerificationInfo_def Let_def
  by (auto split: if_splits)

lemma GTTimestamp_verify_Inl:
  assumes "\<not> (timestamp_is_null obs \<or> token_is_null obs \<or> tst_info_is_null obs
              \<or> time_signature_is_null obs \<or> verification_info_is_null obs)"
    and "createVerificationInfo obs parse_data = Inl c"
  shows "GTTimestamp_verify obs parse_data = (c, None)"
  using assms by (simp add: GTTimestamp_verify_def)

lemma GTTimestamp_verify_Inr:
  assumes "\<not> (timestamp_is_null obs \<or> token_is_null obs \<or> tst_info_is_null obs
              \<or> time_signature_is_null obs \<or> verification_info_is_null obs)"
    and "createVerificationInfo obs parse_data = Inr info0"
  shows "GTTimestamp_verify obs parse_data =
    (let syntax_res = checkTimestampSyntax obs;
         chain_res = checkHashChain obs;
         pk_res = (if pkSignature_present obs then checkPublicKeySignature obs else GT_OK)
     in if chain_res \<notin> {GT_OK, GT_INVALID_FORMAT, GT_UNTRUSTED_HASH_ALGORITHM,
                         GT_WRONG_SIGNED_DATA, GT_INVALID_AGGREGATION}
        then (chain_res, None)
        else if pk_res = GT_CRYPTO_FAILURE then (GT_CRYPTO_FAILURE, None)
        else (GT_OK,
              Some (info0\<lparr>verification_errors :=
                ((verification_errors info0
                   OR (if syntax_res \<noteq> GT_OK then GT_SYNTACTIC_CHECK_FAILURE else 0))
                   OR (if chain_res \<noteq> GT_OK then GT_HASHCHAIN_VERIFICATION_FAILURE else 0))
                   OR (if pk_res \<noteq> GT_OK then GT_PUBLIC_KEY_SIGNATURE_FAILURE else 0)\<rparr>)))"
proof (cases "pkSignature_present obs")
  case False
  then show ?thesis
    using assms by (simp add: GTTimestamp_verify_def Let_def)
next
  case True
  have cert: "signer_certificate_found obs"
    "verification_status info0 AND GT_PUBLIC_KEY_SIGNATURE_PRESENT \<noteq> 0"
    using createVerificationInfo_certificate [OF assms(2) True] by simp_all
  have pk: "checkPublicKeySignature obs = GT_OK \<or> checkPublicKeySignature obs = GT_CRYPTO_FAILURE
     \<or> checkPublicKeySignature obs = GT_INVALID_FORMAT
     \<or> checkPublicKeySignature obs = GT_UNTRUSTED_SIGNATURE_ALGORITHM
     \<or> checkPublicKeySignature obs = GT_INVALID_SIGNATURE"
    using checkPublicKeySignature_codes [of obs] by simp
  show ?thesis
    using assms True cert pk by (auto simp: GTTimestamp_verify_def Let_def)
qed

text \<open>
  C3 (as the code has it). When the arguments are there and
  \<^verbatim>\<open>createVerificationInfo\<close> has built the structure, \<^verbatim>\<open>GTTimestamp_verify\<close> runs
  the three checks one after the other and adds one flag for each that fails, whatever
  the others did: any failure of the syntactic check, the statuses
  \<^verbatim>\<open>GT_INVALID_FORMAT\<close>, \<^verbatim>\<open>GT_UNTRUSTED_HASH_ALGORITHM\<close>, \<^verbatim>\<open>GT_WRONG_SIGNED_DATA\<close>
  and \<^verbatim>\<open>GT_INVALID_AGGREGATION\<close> of the hash chain check, and every failure of the PKI
  signature check but \<^verbatim>\<open>GT_CRYPTO_FAILURE\<close>. It then returns \<^verbatim>\<open>GT_OK\<close> and the
  structure. Every other status of the hash chain check, a system error or not, and
  \<^verbatim>\<open>GT_CRYPTO_FAILURE\<close> of the PKI check are returned as they are, with no structure.
  When \<^verbatim>\<open>createVerificationInfo\<close> fails, its status, which is not \<^verbatim>\<open>GT_OK\<close>, is
  returned with no structure.
\<close>

theorem GTTimestamp_verify_flags:
  assumes "\<not> (timestamp_is_null obs \<or> token_is_null obs \<or> tst_info_is_null obs
              \<or> time_signature_is_null obs \<or> verification_info_is_null obs)"
  shows "case createVerificationInfo obs parse_data of
      Inl tmp_res \<Rightarrow> tmp_res \<noteq> GT_OK \<and> GTTimestamp_verify obs parse_data = (tmp_res, None)
    | Inr info0 \<Rightarrow>
        GTTimestamp_verify obs parse_data =
          (let syntax_res = checkTimestampSyntax obs;
               chain_res = checkHashChain obs;
               pk_res = (if pkSignature_present obs then checkPublicKeySignature obs else GT_OK)
           in if chain_res \<notin> {GT_OK, GT_INVALID_FORMAT, GT_UNTRUSTED_HASH_ALGORITHM,
                               GT_WRONG_SIGNED_DATA, GT_INVALID_AGGREGATION}
              then (chain_res, None)
              else if pk_res = GT_CRYPTO_FAILURE then (GT_CRYPTO_FAILURE, None)
              else (GT_OK,
                    Some (info0\<lparr>verification_errors :=
                      ((verification_errors info0
                         OR (if syntax_res \<noteq> GT_OK then GT_SYNTACTIC_CHECK_FAILURE else 0))
                         OR (if chain_res \<noteq> GT_OK then GT_HASHCHAIN_VERIFICATION_FAILURE else 0))
                         OR (if pk_res \<noteq> GT_OK then GT_PUBLIC_KEY_SIGNATURE_FAILURE else 0)\<rparr>)))"
proof (cases "createVerificationInfo obs parse_data")
  case (Inl c)
  show ?thesis
    unfolding Inl using createVerificationInfo_Inl [OF Inl] GTTimestamp_verify_Inl [OF assms Inl]
    by simp
next
  case (Inr info0)
  show ?thesis
    unfolding Inr using GTTimestamp_verify_Inr [OF assms Inr] by simp
qed

theorem GTTimestamp_verify_flags_witness:
  "(\<exists>info. GTTimestamp_verify failing_obs True = (GT_OK, Some info) \<and> verification_errors info = 19)
   \<and> GTTimestamp_verify (sample_obs\<lparr>malloc_info_ok := False\<rparr>) True = (GT_OUT_OF_MEMORY, None)"
proof -
  have a: "\<not> (timestamp_is_null failing_obs \<or> token_is_null failing_obs \<or> tst_info_is_null failing_obs
              \<or> time_signature_is_null failing_obs \<or> verification_info_is_null failing_obs)"
    by (simp add: failing_obs_def sample_obs_def)
  have "\<not> isl (createVerificationInfo failing_obs True)" by code_simp
  then obtain info0 where c: "createVerificationInfo failing_obs True = Inr info0"
    by (cases "createVerificationInfo failing_obs True") auto
  have e: "map_sum id verification_errors (createVerificationInfo failing_obs True) = Inr 0"
    by code_simp
  have e0: "verification_errors info0 = 0" using c e by simp
  have r: "checkTimestampSyntax failing_obs = GT_UNSUPPORTED_FORMAT"
    "checkHashChain failing_obs = GT_INVALID_AGGREGATION"
    "checkPublicKeySignature failing_obs = GT_INVALID_SIGNATURE"
    "pkSignature_present failing_obs"
    by code_simp+
  have first: "\<exists>info. GTTimestamp_verify failing_obs True = (GT_OK, Some info)
      \<and> verification_errors info = 19"
    using GTTimestamp_verify_flags [OF a, of True] unfolding c
    by (simp add: r e0 flag_values)
  have a': "\<not> (timestamp_is_null (sample_obs\<lparr>malloc_info_ok := False\<rparr>)
              \<or> token_is_null (sample_obs\<lparr>malloc_info_ok := False\<rparr>)
              \<or> tst_info_is_null (sample_obs\<lparr>malloc_info_ok := False\<rparr>)
              \<or> time_signature_is_null (sample_obs\<lparr>malloc_info_ok := False\<rparr>)
              \<or> verification_info_is_null (sample_obs\<lparr>malloc_info_ok := False\<rparr>))"
    by (simp add: sample_obs_def)
  have c': "createVerificationInfo (sample_obs\<lparr>malloc_info_ok := False\<rparr>) True = Inl GT_OUT_OF_MEMORY"
    by (simp add: createVerificationInfo_def)
  have second: "GTTimestamp_verify (sample_obs\<lparr>malloc_info_ok := False\<rparr>) True = (GT_OUT_OF_MEMORY, None)"
    using GTTimestamp_verify_flags [OF a', of True] unfolding c' by simp
  show ?thesis using first second by blast
qed

text \<open>
  C3 as stated fails: for a timestamp with a PKI signature whose token holds no
  certificate of the signer, \<^verbatim>\<open>setVerifiedPKISignatureInfo\<close> makes
  \<^verbatim>\<open>createVerificationInfo\<close> fail, and the verification returns
  \<^verbatim>\<open>GT_INVALID_FORMAT\<close>, which is not a system error, with no structure.
\<close>

theorem GTTimestamp_verify_flags_counterexample:
  "GTTimestamp_verify (sample_obs\<lparr>signer_certificate_found := False\<rparr>) False = (GT_INVALID_FORMAT, None)
   \<and> \<not> is_system_error GT_INVALID_FORMAT
   \<and> pkSignature_present (sample_obs\<lparr>signer_certificate_found := False\<rparr>)"
proof -
  have "GTTimestamp_verify (sample_obs\<lparr>signer_certificate_found := False\<rparr>) False = (GT_INVALID_FORMAT, None)"
    by code_simp
  moreover have "\<not> is_system_error GT_INVALID_FORMAT"
    by (simp add: is_system_error_def)
  moreover have "pkSignature_present (sample_obs\<lparr>signer_certificate_found := False\<rparr>)"
    by (simp add: sample_obs_def)
  ultimately show ?thesis by blast
qed

lemma upper_bits: "(h :: 64 word) < 2 ^ 31 \<longleftrightarrow> (\<forall>n\<ge>31. \<not> bit h n)"
proof -
  have "h < 2 ^ 31 \<longleftrightarrow> take_bit 31 h = h"
    using mask_eq_iff_w2p [of 31 h] by (simp add: take_bit_eq_mask word_size)
  also have "\<dots> \<longleftrightarrow> (\<forall>n\<ge>31. \<not> bit h n)"
  proof
    assume e: "take_bit 31 h = h"
    show "\<forall>n\<ge>31. \<not> bit h n"
    proof (intro allI impI)
      fix n :: nat assume "31 \<le> n"
      then have "\<not> bit (take_bit 31 h) n" by (simp add: bit_take_bit_iff)
      then show "\<not> bit h n" using e by simp
    qed
  next
    assume "\<forall>n\<ge>31. \<not> bit h n"
    then show "take_bit 31 h = h"
      by (auto simp: bit_eq_iff bit_take_bit_iff not_less) (meson not_less)
  qed
  finally show ?thesis .
qed

lemma time_t_overflow_iff: "time_t_overflow h \<longleftrightarrow> 2 ^ 31 \<le> h"
proof -
  let ?t = "ucast h :: 32 word"
  have neg: "sint ?t < 0 \<longleftrightarrow> bit h 31"
    using bit_last_iff [of ?t] by (simp add: bit_ucast_iff)
  have sc: "(scast ?t :: 64 word) = h \<longleftrightarrow> (\<forall>n<64. bit h (min 31 n) = bit h n)"
    by (auto simp: bit_eq_iff bit_signed_iff bit_ucast_iff dest: bit_imp_le_length)
  have "time_t_overflow h \<longleftrightarrow> (\<exists>n\<ge>31. bit h n)"
  proof
    assume "time_t_overflow h"
    then consider "bit h 31" | "\<not> bit h 31" "\<exists>n<64. bit h (min 31 n) \<noteq> bit h n"
      using neg sc by (auto simp: time_t_overflow_def)
    then show "\<exists>n\<ge>31. bit h n"
    proof cases
      case 1
      then show ?thesis by blast
    next
      case 2
      then obtain n where "n < 64" "bit h (min 31 n) \<noteq> bit h n" by blast
      then have "31 \<le> n \<and> bit h n" using 2(1) by (cases "n \<le> 31") (auto simp: min_def)
      then show ?thesis by blast
    qed
  next
    assume "\<exists>n\<ge>31. bit h n"
    then obtain n where n: "31 \<le> n" "bit h n" by blast
    then have n64: "n < 64" using bit_imp_le_length [of h n] by simp
    show "time_t_overflow h"
    proof (cases "bit h 31")
      case True
      then show ?thesis using neg by (simp add: time_t_overflow_def)
    next
      case False
      then have "bit h (min 31 n) \<noteq> bit h n" using n by (simp add: min_def)
      then have "(scast ?t :: 64 word) \<noteq> h" using sc n64 by blast
      then show ?thesis by (simp add: time_t_overflow_def)
    qed
  qed
  then show ?thesis using upper_bits [of h] by (auto simp: not_less)
qed

lemma or_flag: "((e :: int) OR f) OR f = e OR f" "(e OR f) OR g = (e OR g) OR f"
  by (simp_all add: or.assoc or.commute or.left_commute)

lemma history_tmp_res_overflow:
  assumes "time_t_32bit obs" "GT_shape_res obs = GT_OK" "GT_findHistoryIdentifier_res obs = GT_OK"
    and "2 ^ 31 \<le> history_identifier_found obs"
  shows "history_tmp_res obs = GT_INVALID_FORMAT"
    and "history_tmp_res (obs\<lparr>history_identifier_found := 0\<rparr>) = GT_OK"
  using assms by (simp_all add: history_tmp_res_def time_t_overflow_iff)

lemma checkHashChain_frame:
  "checkHashChain (obs\<lparr>history_identifier_found := v\<rparr>) = checkHashChain obs"
  unfolding checkHashChain_def
  by (simp cong: if_cong option.case_cong split del: if_split)

lemma history_identifier_frame:
  "status_flags (obs\<lparr>history_identifier_found := v\<rparr>) = status_flags obs"
  "setVerifiedPKISignatureInfo (obs\<lparr>history_identifier_found := v\<rparr>) = setVerifiedPKISignatureInfo obs"
  "setVerifiedPublicationSignatureInfo (obs\<lparr>history_identifier_found := v\<rparr>)
     = setVerifiedPublicationSignatureInfo obs"
  "checkTimestampSyntax (obs\<lparr>history_identifier_found := v\<rparr>) = checkTimestampSyntax obs"
  "checkPublicKeySignature (obs\<lparr>history_identifier_found := v\<rparr>) = checkPublicKeySignature obs"
  by (simp_all add: status_flags_def setVerifiedPKISignatureInfo_def
      setVerifiedPublicationSignatureInfo_def checkTimestampSyntax_def
      checkPublicKeySignature_def)

lemma createVerificationInfo_overflow:
  assumes "time_t_32bit obs" "GT_shape_res obs = GT_OK" "GT_findHistoryIdentifier_res obs = GT_OK"
    and "2 ^ 31 \<le> history_identifier_found obs"
  shows "createVerificationInfo obs pd =
    (case createVerificationInfo (obs\<lparr>history_identifier_found := 0\<rparr>) pd of
       Inl c \<Rightarrow> Inl c
     | Inr info \<Rightarrow> Inr (info\<lparr>verification_errors := verification_errors info OR GT_SYNTACTIC_CHECK_FAILURE\<rparr>))"
    and "createVerificationInfo obs pd = Inr info \<Longrightarrow> registered_time (implicit_data info) = 0"
proof -
  note h = history_tmp_res_overflow [OF assms]
  show "createVerificationInfo obs pd =
    (case createVerificationInfo (obs\<lparr>history_identifier_found := 0\<rparr>) pd of
       Inl c \<Rightarrow> Inl c
     | Inr info \<Rightarrow> Inr (info\<lparr>verification_errors := verification_errors info OR GT_SYNTACTIC_CHECK_FAILURE\<rparr>))"
    by (simp add: createVerificationInfo_def Let_def h history_identifier_frame or_flag)
  show "registered_time (implicit_data info) = 0" if "createVerificationInfo obs pd = Inr info"
    using that by (auto simp: createVerificationInfo_def Let_def h split: if_splits)
qed

lemma GTTimestamp_verify_Some:
  assumes "GTTimestamp_verify obs pd = (c, Some info)"
  shows "c = GT_OK \<and> (\<exists>info0. createVerificationInfo obs pd = Inr info0
            \<and> implicit_data info = implicit_data info0)"
  using assms
  by (cases "createVerificationInfo obs pd")
     (auto simp: GTTimestamp_verify_def Let_def split: if_splits)

lemma syntactic_bit: "((x :: int) OR GT_SYNTACTIC_CHECK_FAILURE) AND GT_SYNTACTIC_CHECK_FAILURE
    = GT_SYNTACTIC_CHECK_FAILURE"
  by (simp add: bit_eq_iff bit_and_iff bit_or_iff) blast

text \<open>
  C7. On a build with a 32-bit \<open>time_t\<close>, when the history chain gives a registration
  time of \<open>2^31\<close> or more, which a signed 32-bit \<open>time_t\<close> cannot hold, the
  verification returns what it returns for the same timestamp with a registration time
  that fits, with \<^verbatim>\<open>GT_SYNTACTIC_CHECK_FAILURE\<close> added to \<open>verification_errors\<close>:
  the overflow is no reason of its own to return without a structure. Whenever a
  structure is returned, the flag is set in it and its \<open>registered_time\<close> is 0.
\<close>

theorem registered_time_overflow:
  assumes "time_t_32bit obs" "GT_shape_res obs = GT_OK" "GT_findHistoryIdentifier_res obs = GT_OK"
    and "2 ^ 31 \<le> history_identifier_found obs"
  shows "GTTimestamp_verify obs parse_data =
      (case GTTimestamp_verify (obs\<lparr>history_identifier_found := 0\<rparr>) parse_data of
         (c, None) \<Rightarrow> (c, None)
       | (c, Some info) \<Rightarrow>
           (c, Some (info\<lparr>verification_errors := verification_errors info OR GT_SYNTACTIC_CHECK_FAILURE\<rparr>)))
    \<and> (\<forall>c info. GTTimestamp_verify obs parse_data = (c, Some info) \<longrightarrow>
          c = GT_OK
          \<and> verification_errors info AND GT_SYNTACTIC_CHECK_FAILURE = GT_SYNTACTIC_CHECK_FAILURE
          \<and> registered_time (implicit_data info) = 0)"
proof -
  let ?obs = "obs\<lparr>history_identifier_found := 0\<rparr>"
  have eq: "GTTimestamp_verify obs parse_data =
      (case GTTimestamp_verify ?obs parse_data of
         (c, None) \<Rightarrow> (c, None)
       | (c, Some info) \<Rightarrow>
           (c, Some (info\<lparr>verification_errors := verification_errors info OR GT_SYNTACTIC_CHECK_FAILURE\<rparr>)))"
    by (cases "createVerificationInfo ?obs parse_data")
       (simp_all add: GTTimestamp_verify_def createVerificationInfo_overflow(1) [OF assms]
          history_identifier_frame checkHashChain_frame Let_def or_flag)
  have "c = GT_OK \<and> verification_errors info AND GT_SYNTACTIC_CHECK_FAILURE = GT_SYNTACTIC_CHECK_FAILURE
          \<and> registered_time (implicit_data info) = 0"
    if v: "GTTimestamp_verify obs parse_data = (c, Some info)" for c info
  proof -
    from GTTimestamp_verify_Some [OF v] obtain info0 where
      c: "c = GT_OK" and i: "createVerificationInfo obs parse_data = Inr info0"
      "implicit_data info = implicit_data info0" by blast
    have "registered_time (implicit_data info) = 0"
      using createVerificationInfo_overflow(2) [OF assms i(1)] i(2) by simp
    moreover have "verification_errors info AND GT_SYNTACTIC_CHECK_FAILURE = GT_SYNTACTIC_CHECK_FAILURE"
    proof (cases "GTTimestamp_verify ?obs parse_data")
      case (Pair c' r)
      then show ?thesis using v eq by (cases r) (auto simp: syntactic_bit)
    qed
    ultimately show ?thesis using c by simp
  qed
  then show ?thesis using eq by blast
qed

theorem registered_time_overflow_witness:
  "\<exists>info. GTTimestamp_verify overflow_obs False = (GT_OK, Some info)
      \<and> verification_errors info AND GT_SYNTACTIC_CHECK_FAILURE = GT_SYNTACTIC_CHECK_FAILURE
      \<and> registered_time (implicit_data info) = 0"
proof -
  have a: "time_t_32bit overflow_obs" "GT_shape_res overflow_obs = GT_OK"
    "GT_findHistoryIdentifier_res overflow_obs = GT_OK"
    "2 ^ 31 \<le> history_identifier_found overflow_obs"
    by (simp_all add: overflow_obs_def sample_obs_def)
  have "fst (GTTimestamp_verify overflow_obs False) = GT_OK \<and> snd (GTTimestamp_verify overflow_obs False) \<noteq> None"
    by code_simp
  then obtain info where "GTTimestamp_verify overflow_obs False = (GT_OK, Some info)"
    by (cases "GTTimestamp_verify overflow_obs False") auto
  then show ?thesis
    using registered_time_overflow [OF a, of False] by blast
qed

section \<open>Properties of the extension\<close>

lemma splice_frame:
  assumes "tokens h a = None"
    and "splice_time_signature asserts env
           (h\<lparr>tokens := (tokens h)(a \<mapsto> p7), next_token := a + 1\<rparr>) a p7 ext = r"
  shows "case r of
      Inl f \<Rightarrow> \<not> (type_is_signed p7 \<and> map_option length (signer_infos p7) = Some 1)
    | Inr (res, h', out) \<Rightarrow>
        if res = GT_OK
        then \<exists>sis packed. signer_infos p7 = Some sis \<and> length sis = 1 \<and> type_is_signed p7
               \<and> ASN1_item_pack env ext = Some packed
               \<and> h' = h\<lparr>tokens := (tokens h)(a \<mapsto>
                     p7\<lparr>signer_infos := Some (sis[0 := (sis ! 0)\<lparr>enc_digest := packed\<rparr>]), cert := None\<rparr>),
                     next_token := a + 1\<rparr>
               \<and> out = Some \<lparr>token = Some a, tst_info = d2i_GTTSTInfo env (contents_octets p7),
                              signer_info = Some a, time_signature = d2i_GTTimeSignature env packed\<rparr>
               \<and> d2i_GTTSTInfo env (contents_octets p7) \<noteq> None
               \<and> d2i_GTTimeSignature env packed \<noteq> None
        else out = None \<and> tokens h' = tokens h"
proof -
  have fr: "((tokens h)(a \<mapsto> x))(a := None) = tokens h" for x
    using assms(1) by (simp add: fun_upd_idem_iff)
  have fr2: "((tokens h)(a \<mapsto> x, a \<mapsto> y))(a := None) = tokens h" for x y
    using assms(1) by (simp add: fun_upd_idem_iff)
  have fr0: "(tokens h)(a := None) = tokens h"
    using assms(1) by (simp add: fun_upd_idem_iff)
  show ?thesis
    using assms(2)
    by (auto simp: splice_time_signature_def Let_def free_token_def fr fr2 fr0
        GTTimestamp_updateTSTInfo_def GTTimestamp_updateTimeSignature_def
        split: if_splits option.splits)
qed

lemma extend_from_response_Inl: "extend_from_response env sig rb = Inl res \<Longrightarrow> res \<noteq> GT_OK"
  by (auto simp: extend_from_response_def split: option.splits if_splits)

lemma extend_from_response_Inr:
  "extend_from_response env sig rb = Inr ext \<Longrightarrow>
     \<exists>resp ct. d2i_GTCertTokenResponse env rb = Some resp
       \<and> GT_analyseResponseStatus env (response_status resp) = GT_OK
       \<and> certToken resp = Some ct \<and> certToken_version ct = 1
       \<and> GT_checkUnhandledExtensions env (certToken_extensions ct) = GT_OK
       \<and> GT_extendConsistencyCheck env sig ct = GT_OK
       \<and> GT_extendTimeSignature env sig ct = (GT_OK, ext)"
  by (auto simp: extend_from_response_def prod_eq_iff split: option.splits if_splits)

text \<open>
  C8. On a heap whose addresses from \<open>next_token\<close> on are free,
  \<^verbatim>\<open>GTTimestamp_createExtendedTimestamp\<close> leaves every object of the heap as it was,
  the token of the input timestamp among them, and either returns \<^verbatim>\<open>GT_OK\<close> and
  stores a new timestamp, or returns another status, stores nothing and leaves the heap
  with the objects it had. When it returns \<^verbatim>\<open>GT_OK\<close>, the response has been decoded,
  its status, the version 1 of its \<^verbatim>\<open>certToken\<close>, the extensions and the consistency
  with the time signature of the input have been accepted, and the stored timestamp
  is this one: its token is a new object at the next free address, the copy of the
  input's token with, in its single signer info, the packed time signature that
  \<^verbatim>\<open>GT_extendTimeSignature\<close> made of the input's time signature and the
  \<^verbatim>\<open>certToken\<close>, and without certificates; its signer info is the one of the new
  token; its \<open>tst_info\<close> is decoded from the content of the token and its
  \<open>time_signature\<close> from the packed extended time signature. The function does not
  return only for an input whose token is not a signed one with exactly one signer
  info, which no timestamp built by the library is.
\<close>

theorem createExtendedTimestamp_transactional:
  assumes "\<forall>a\<ge>next_token h. tokens h a = None"
  shows "case GTTimestamp_createExtendedTimestamp asserts env h timestamp response response_length
              extended_timestamp_is_null of
      Inl f \<Rightarrow>
        \<exists>ts t p7. timestamp = Some ts \<and> token ts = Some t \<and> tokens h t = Some p7
          \<and> \<not> (type_is_signed p7 \<and> map_option length (signer_infos p7) = Some 1)
    | Inr (res, h', out) \<Rightarrow>
        (\<forall>b. tokens h b \<noteq> None \<longrightarrow> tokens h' b = tokens h b)
        \<and> (if res = GT_OK
           then \<exists>ts t p7 sig rb resp ct ext sis packed.
                  timestamp = Some ts \<and> token ts = Some t \<and> tokens h t = Some p7
                  \<and> time_signature ts = Some sig \<and> response = Some rb
                  \<and> d2i_GTCertTokenResponse env rb = Some resp
                  \<and> GT_analyseResponseStatus env (response_status resp) = GT_OK
                  \<and> certToken resp = Some ct \<and> certToken_version ct = 1
                  \<and> GT_checkUnhandledExtensions env (certToken_extensions ct) = GT_OK
                  \<and> GT_extendConsistencyCheck env sig ct = GT_OK
                  \<and> GT_extendTimeSignature env sig ct = (GT_OK, ext)
                  \<and> ASN1_item_pack env ext = Some packed
                  \<and> signer_infos p7 = Some sis \<and> length sis = 1 \<and> type_is_signed p7
                  \<and> tokens h (next_token h) = None
                  \<and> h' = h\<lparr>tokens := (tokens h)(next_token h \<mapsto>
                        p7\<lparr>signer_infos := Some (sis[0 := (sis ! 0)\<lparr>enc_digest := packed\<rparr>]),
                           cert := None\<rparr>),
                        next_token := next_token h + 1\<rparr>
                  \<and> out = Some \<lparr>token = Some (next_token h),
                                 tst_info = d2i_GTTSTInfo env (contents_octets p7),
                                 signer_info = Some (next_token h),
                                 time_signature = d2i_GTTimeSignature env packed\<rparr>
                  \<and> d2i_GTTSTInfo env (contents_octets p7) \<noteq> None
                  \<and> d2i_GTTimeSignature env packed \<noteq> None
           else out = None \<and> tokens h' = tokens h)"
proof -
  let ?run = "GTTimestamp_createExtendedTimestamp asserts env h timestamp response response_length
                extended_timestamp_is_null"
  let ?a = "next_token h"
  have free: "tokens h ?a = None" using assms by simp
  show ?thesis
  proof (cases "\<exists>ts t p7 tst0 sig rb. timestamp = Some ts \<and> token ts = Some t
      \<and> tokens h t = Some p7 \<and> tst_info ts = Some tst0 \<and> time_signature ts = Some sig
      \<and> response = Some rb \<and> response_length \<noteq> 0 \<and> \<not> extended_timestamp_is_null")
    case False
    then have "?run = Inr (GT_INVALID_ARGUMENT, h, None)"
      by (auto simp: GTTimestamp_createExtendedTimestamp_def split: option.splits)
    then show ?thesis by simp
  next
    case True
    then obtain ts t p7 tst0 sig rb where
      args: "timestamp = Some ts" "token ts = Some t" "tokens h t = Some p7" "tst_info ts = Some tst0"
        "time_signature ts = Some sig" "response = Some rb" "response_length \<noteq> 0"
        "\<not> extended_timestamp_is_null"
      by blast
    show ?thesis
    proof (cases "extend_from_response env sig rb")
      case (Inl res)
      then have "?run = Inr (res, h, None)" "res \<noteq> GT_OK"
        using args extend_from_response_Inl [OF Inl]
        by (simp_all add: GTTimestamp_createExtendedTimestamp_def)
      then show ?thesis by simp
    next
      case (Inr ext)
      from extend_from_response_Inr [OF Inr] obtain resp ct where
        resp: "d2i_GTCertTokenResponse env rb = Some resp"
          "GT_analyseResponseStatus env (response_status resp) = GT_OK"
          "certToken resp = Some ct" "certToken_version ct = 1"
          "GT_checkUnhandledExtensions env (certToken_extensions ct) = GT_OK"
          "GT_extendConsistencyCheck env sig ct = GT_OK"
          "GT_extendTimeSignature env sig ct = (GT_OK, ext)"
        by blast
      show ?thesis
      proof (cases "GTTimestamp_new_ok env \<and> PKCS7_dup_ok env")
        case False
        then have "?run = Inr (GT_OUT_OF_MEMORY, h, None)"
          using args Inr by (auto simp: GTTimestamp_createExtendedTimestamp_def)
        then show ?thesis by simp
      next
        case True
        let ?r = "splice_time_signature asserts env
                    (h\<lparr>tokens := (tokens h)(?a \<mapsto> p7), next_token := ?a + 1\<rparr>) ?a p7 ext"
        have run: "?run = ?r"
          using args Inr True by (simp add: GTTimestamp_createExtendedTimestamp_def)
        note sf = splice_frame [OF free refl, where asserts = asserts and env = env and ?p7.0 = p7 and ext = ext]
        show ?thesis
        proof (cases ?r)
          case (Inl f)
          then show ?thesis using sf args run by simp
        next
          case r: (Inr x)
          obtain res h' out where x: "x = (res, h', out)" by (cases x)
          show ?thesis
          proof (cases "res = GT_OK")
            case ok: True
            then obtain sis packed where sp:
              "signer_infos p7 = Some sis" "length sis = 1" "type_is_signed p7"
              "ASN1_item_pack env ext = Some packed"
              "h' = h\<lparr>tokens := (tokens h)(?a \<mapsto>
                  p7\<lparr>signer_infos := Some (sis[0 := (sis ! 0)\<lparr>enc_digest := packed\<rparr>]), cert := None\<rparr>),
                  next_token := ?a + 1\<rparr>"
              "out = Some \<lparr>token = Some ?a, tst_info = d2i_GTTSTInfo env (contents_octets p7),
                            signer_info = Some ?a, time_signature = d2i_GTTimeSignature env packed\<rparr>"
              "d2i_GTTSTInfo env (contents_octets p7) \<noteq> None"
              "d2i_GTTimeSignature env packed \<noteq> None"
              using sf r x by auto
            have frame: "\<forall>b. tokens h b \<noteq> None \<longrightarrow> tokens h' b = tokens h b"
              using sp(5) free by auto
            have "\<exists>ts t p7 sig rb resp ct ext sis packed.
                  timestamp = Some ts \<and> token ts = Some t \<and> tokens h t = Some p7
                  \<and> time_signature ts = Some sig \<and> response = Some rb
                  \<and> d2i_GTCertTokenResponse env rb = Some resp
                  \<and> GT_analyseResponseStatus env (response_status resp) = GT_OK
                  \<and> certToken resp = Some ct \<and> certToken_version ct = 1
                  \<and> GT_checkUnhandledExtensions env (certToken_extensions ct) = GT_OK
                  \<and> GT_extendConsistencyCheck env sig ct = GT_OK
                  \<and> GT_extendTimeSignature env sig ct = (GT_OK, ext)
                  \<and> ASN1_item_pack env ext = Some packed
                  \<and> signer_infos p7 = Some sis \<and> length sis = 1 \<and> type_is_signed p7
                  \<and> tokens h (next_token h) = None
                  \<and> h' = h\<lparr>tokens := (tokens h)(next_token h \<mapsto>
                        p7\<lparr>signer_infos := Some (sis[0 := (sis ! 0)\<lparr>enc_digest := packed\<rparr>]),
                           cert := None\<rparr>),
                        next_token := next_token h + 1\<rparr>
                  \<and> out = Some \<lparr>token = Some (next_token h),
                                 tst_info = d2i_GTTSTInfo env (contents_octets p7),
                                 signer_info = Some (next_token h),
                                 time_signature = d2i_GTTimeSignature env packed\<rparr>
                  \<and> d2i_GTTSTInfo env (contents_octets p7) \<noteq> None
                  \<and> d2i_GTTimeSignature env packed \<noteq> None"
              using args(1,2,3,5,6) resp sp free by blast
            then show ?thesis
              unfolding run r x using ok frame by simp
          next
            case bad: False
            then have "out = None \<and> tokens h' = tokens h" using sf r x by simp
            then show ?thesis using run r x bad by simp
          qed
        qed
      qed
    qed
  qed
qed

theorem createExtendedTimestamp_transactional_witness:
  "GTTimestamp_createExtendedTimestamp True sample_env sample_heap
        (Some sample_timestamp) (Some [9]) 1 False
     = Inr (GT_OK,
         sample_heap\<lparr>tokens := (tokens sample_heap)(1 \<mapsto>
             sample_token\<lparr>signer_infos :=
                 Some [\<lparr>digest_enc_alg_is_time_signature = True, enc_digest = [4, 5, 9]\<rparr>],
               cert := None\<rparr>),
           next_token := 2\<rparr>,
         Some \<lparr>token = Some 1, tst_info = Some [1, 2, 3], signer_info = Some 1,
               time_signature = Some [4, 5, 9]\<rparr>)
   \<and> tokens sample_heap 0 = Some sample_token
   \<and> GTTimestamp_createExtendedTimestamp True sample_env sample_heap
        (Some sample_timestamp) (Some [9]) 0 False = Inr (GT_INVALID_ARGUMENT, sample_heap, None)"
proof -
  let ?run = "GTTimestamp_createExtendedTimestamp True sample_env sample_heap
        (Some sample_timestamp) (Some [9]) 1 False"
  have wf: "\<forall>a\<ge>next_token sample_heap. tokens sample_heap a = None"
    by (simp add: sample_heap_def)
  have "map_sum id fst ?run = Inr GT_OK" by code_simp
  then obtain h' out where r: "?run = Inr (GT_OK, h', out)"
    by (cases ?run) auto
  have t0: "tokens sample_heap 0 = Some sample_token" "next_token sample_heap = 1"
    by (simp_all add: sample_heap_def)
  have ts: "token sample_timestamp = Some 0" "time_signature sample_timestamp = Some [4, 5]"
    by (simp_all add: sample_timestamp_def)
  have env: "d2i_GTCertTokenResponse sample_env [9]
        = Some \<lparr>response_status = 0,
                 certToken = Some \<lparr>certToken_version = 1, certToken_extensions = 0,
                                    certToken_body = [9]\<rparr>\<rparr>"
      "GT_extendTimeSignature sample_env = (\<lambda>sig ct. (GT_OK, sig @ certToken_body ct))"
      "ASN1_item_pack sample_env = Some" "d2i_GTTSTInfo sample_env = Some"
      "d2i_GTTimeSignature sample_env = Some"
    by (simp_all add: sample_env_def)
  have tok: "signer_infos sample_token
        = Some [\<lparr>digest_enc_alg_is_time_signature = True, enc_digest = [4, 5]\<rparr>]"
      "contents_octets sample_token = [1, 2, 3]"
    by (simp_all add: sample_token_def)
  from createExtendedTimestamp_transactional [OF wf, where asserts = True and env = sample_env
      and timestamp = "Some sample_timestamp" and response = "Some [9]" and response_length = 1
      and extended_timestamp_is_null = False]
  have "h' = sample_heap\<lparr>tokens := (tokens sample_heap)(1 \<mapsto>
             sample_token\<lparr>signer_infos :=
                 Some [\<lparr>digest_enc_alg_is_time_signature = True, enc_digest = [4, 5, 9]\<rparr>],
               cert := None\<rparr>),
           next_token := 2\<rparr>
      \<and> out = Some \<lparr>token = Some 1, tst_info = Some [1, 2, 3], signer_info = Some 1,
               time_signature = Some [4, 5, 9]\<rparr>"
    unfolding r using t0 ts env tok by auto
  moreover have "GTTimestamp_createExtendedTimestamp True sample_env sample_heap
        (Some sample_timestamp) (Some [9]) 0 False = Inr (GT_INVALID_ARGUMENT, sample_heap, None)"
    by (simp add: GTTimestamp_createExtendedTimestamp_def sample_timestamp_def sample_heap_def)
  ultimately show ?thesis using r t0 by simp
qed

end
